theory Spec2Isabelle
  imports Complex_Main "HOL-Library.Product_Lexorder" "HOL-Library.AList"
begin

section \<open>Data model\<close>

text \<open>
  The pipeline works on pandas data frames. A frame is modelled row-major: the list of
  its column names (what \<^verbatim>\<open>c in df.columns\<close> tests) and the list of its rows.
  A float64 column is a list of \<open>real option\<close>, \<open>None\<close> being NaN / \<^verbatim>\<open>pd.NA\<close>;
  floating-point rounding is not modelled, arithmetic is exact. Gameweek and entity
  keys are integers, as the data model of the pipeline states. A cell of a column of
  mixed encodings (the \<^verbatim>\<open>finished\<close> flag) is a \<open>cell\<close>: missing, a boolean, an integer,
  a float or a string, after the dtype pandas gave the column (a column of 0/1 with a
  blank is read as float64, one of \<^verbatim>\<open>True\<close>/\<^verbatim>\<open>False\<close> as bool, an all-integer one as int64,
  anything else as strings).
\<close>

datatype error = ValueError | KeyError | FileNotFoundError

datatype cell = NA | CBool bool | CInt int | CFloat real | CStr string

record 'r frame =
  columns :: "string list"
  rows :: "'r list"

text \<open>\<^verbatim>\<open>df.empty\<close>: an axis of length zero.\<close>

definition empty :: "'r frame \<Rightarrow> bool" where
  "empty df = (columns df = [] \<or> rows df = [])"

record keyed =
  gw :: int

section \<open>Finished-gameweek index (src/io/index.py)\<close>

text \<open>
  A row of the \<^verbatim>\<open>matches\<close> and \<^verbatim>\<open>fixtures\<close> tables (they have the same columns). A
  team id or an Elo rating may be missing.
\<close>

record match_row = keyed +
  gameweek :: int
  home_team :: "int option"
  away_team :: "int option"
  home_team_elo :: "real option"
  away_team_elo :: "real option"
  finished :: cell
  match_id :: int

record FinishedGwIndex =
  finished_gws :: "int list"
  max_finished_gw :: int

subsection \<open>Python string helpers\<close>

definition digit_char :: "nat \<Rightarrow> char" where
  "digit_char d = ''0123456789'' ! d"

fun str_nat :: "nat \<Rightarrow> string" where
  "str_nat n = (if n < 10 then [digit_char n] else str_nat (n div 10) @ [digit_char (n mod 10)])"

declare str_nat.simps [simp del]

text \<open>\<^verbatim>\<open>str(i)\<close> of a Python int.\<close>

definition str_int :: "int \<Rightarrow> string" where
  "str_int i = (if i < 0 then CHR ''-'' # str_nat (nat (- i)) else str_nat (nat i))"

text \<open>
  \<^verbatim>\<open>str(x)\<close> of a Python float. A float cell is the real number its printed form denotes
  (floating-point rounding is not modelled). The text is in the positional notation
  \<^verbatim>\<open>repr\<close> uses for magnitudes from 1e-4 up to 1e16: the sign, the digits of the whole
  part, a point, and the digits of the fractional part, a single \<^verbatim>\<open>0\<close> when there is none
  (\<^verbatim>\<open>str(1.0)\<close> is \<^verbatim>\<open>'1.0'\<close>, \<^verbatim>\<open>str(0.0)\<close> is \<^verbatim>\<open>'0.0'\<close>, \<^verbatim>\<open>str(0.25)\<close> is \<^verbatim>\<open>'0.25'\<close>). At most
  17 fractional digits are produced; the exponent notation \<^verbatim>\<open>repr\<close> uses outside that
  range is not modelled.
\<close>

fun frac_digits :: "nat \<Rightarrow> real \<Rightarrow> string" where
  "frac_digits 0 f = []"
| "frac_digits (Suc n) f =
     (if f = 0 then []
      else digit_char (nat \<lfloor>10 * f\<rfloor>) # frac_digits n (10 * f - of_int \<lfloor>10 * f\<rfloor>))"

definition str_float :: "real \<Rightarrow> string" where
  "str_float x =
     (let a = \<bar>x\<bar>; whole = nat \<lfloor>a\<rfloor>; f = a - of_nat whole in
      (if x < 0 then ''-'' else []) @ str_nat whole @ ''.'' @
      (if f = 0 then ''0'' else frac_digits 17 f))"

text \<open>
  \<^verbatim>\<open>series.astype(str)\<close>, cell by cell: \<^verbatim>\<open>str(True)\<close> is \<^verbatim>\<open>'True'\<close>, a missing
  value is rendered \<^verbatim>\<open>'nan'\<close>, an integer by its digits and a float with its decimal
  point.
\<close>

fun astype_str :: "cell \<Rightarrow> string" where
  "astype_str NA = ''nan''"
| "astype_str (CBool b) = (if b then ''True'' else ''False'')"
| "astype_str (CInt i) = str_int i"
| "astype_str (CFloat x) = str_float x"
| "astype_str (CStr s) = s"

text \<open>The ASCII characters \<^verbatim>\<open>str.strip()\<close> removes.\<close>

definition is_space :: "char \<Rightarrow> bool" where
  "is_space c = (c \<in> set [CHR 0x09, CHR 0x0A, CHR 0x0B, CHR 0x0C, CHR 0x0D,
                           CHR 0x1C, CHR 0x1D, CHR 0x1E, CHR 0x1F, CHR 0x20])"

definition strip :: "string \<Rightarrow> string" where
  "strip s = rev (dropWhile is_space (rev (dropWhile is_space s)))"

text \<open>\<^verbatim>\<open>str.lower()\<close> on ASCII: the letters A to Z are mapped, every other byte is kept.\<close>

definition lower_char :: "char \<Rightarrow> char" where
  "lower_char c =
     (case map_of (zip ''ABCDEFGHIJKLMNOPQRSTUVWXYZ'' ''abcdefghijklmnopqrstuvwxyz'') c of
        Some l \<Rightarrow> l
      | None \<Rightarrow> c)"

definition lower :: "string \<Rightarrow> string" where
  "lower s = map lower_char s"

subsection \<open>The index\<close>

text \<open>
  \<^verbatim>\<open>vals = series.astype(str).str.strip().str.lower()\<close>,
  \<^verbatim>\<open>vals.isin(["true", "1", "t", "yes"])\<close>.
\<close>

definition to_bool :: "cell \<Rightarrow> bool" where
  "to_bool v = (lower (strip (astype_str v)) \<in> set [''true'', ''1'', ''t'', ''yes''])"

definition to_bool_series :: "cell list \<Rightarrow> bool list" where
  "to_bool_series series = map to_bool series"

text \<open>
  \<^verbatim>\<open>tmp.groupby(gw_col, sort=True)\<close>: one group per distinct key, keys ascending, each
  group holding its rows in frame order.
\<close>

definition groupby_sorted :: "('r \<Rightarrow> int) \<Rightarrow> 'r list \<Rightarrow> (int \<times> 'r list) list" where
  "groupby_sorted key rs =
     map (\<lambda>k. (k, filter (\<lambda>r. key r = k) rs)) (sort (remdups (map key rs)))"

text \<open>The column the rows are tagged by: \<^verbatim>\<open>gw\<close> when present, else the alias.\<close>

definition gw_tag :: "match_row frame \<Rightarrow> match_row \<Rightarrow> int" where
  "gw_tag matches r = (if ''gw'' \<in> set (columns matches) then gw r else gameweek r)"

definition compute_finished_gws :: "match_row frame \<Rightarrow> error + FinishedGwIndex" where
  "compute_finished_gws matches =
     (let gw_col = (if ''gw'' \<in> set (columns matches) then ''gw'' else ''gameweek'') in
      if gw_col \<notin> set (columns matches) then Inl ValueError
      else if ''finished'' \<notin> set (columns matches) then Inl ValueError
      else
        let tmp = map (\<lambda>r. (gw_tag matches r, to_bool (finished r))) (rows matches);
            fin = map fst (filter (\<lambda>(g, grp). list_all snd grp) (groupby_sorted fst tmp));
            max_finished = (if fin \<noteq> [] then fold max (tl fin) (hd fin) else 0)
        in Inr \<lparr>finished_gws = fin, max_finished_gw = max_finished\<rparr>)"

section \<open>pandas series operations\<close>

type_synonym series = "real option list"

text \<open>\<^verbatim>\<open>s.shift(k)\<close>: values move \<open>k\<close> places down (up when \<open>k\<close> is negative), NaN fills in.\<close>

definition shift :: "int \<Rightarrow> 'a option list \<Rightarrow> 'a option list" where
  "shift k s =
     (if 0 \<le> k then take (length s) (replicate (nat k) None @ s)
      else drop (nat (- k)) s @ replicate (min (nat (- k)) (length s)) None)"

text \<open>The trailing window of size \<open>w\<close> that ends at position \<open>i\<close>.\<close>

definition window_at :: "nat \<Rightarrow> 'a list \<Rightarrow> nat \<Rightarrow> 'a list" where
  "window_at w s i = drop (Suc i - w) (take (Suc i) s)"

text \<open>The values of a window that are not NaN.\<close>

fun observed :: "'a option list \<Rightarrow> 'a list" where
  "observed [] = []"
| "observed (None # xs) = observed xs"
| "observed (Some x # xs) = x # observed xs"

text \<open>
  \<^verbatim>\<open>s.rolling(window=w, min_periods=m).sum()\<close>: the sum of the observed values of the
  window, NaN when fewer than \<open>m\<close> of them are observed.
\<close>

definition rolling_sum :: "nat \<Rightarrow> nat \<Rightarrow> series \<Rightarrow> series" where
  "rolling_sum w m s =
     map (\<lambda>i. let obs = observed (window_at w s i)
              in if m \<le> length obs then Some (sum_list obs) else None) [0..<length s]"

text \<open>\<^verbatim>\<open>s.rolling(w, min_periods=m).mean()\<close>.\<close>

definition rolling_mean :: "nat \<Rightarrow> nat \<Rightarrow> series \<Rightarrow> series" where
  "rolling_mean w m s =
     map (\<lambda>i. let obs = observed (window_at w s i)
              in if m \<le> length obs \<and> obs \<noteq> [] then Some (sum_list obs / real (length obs))
                 else None) [0..<length s]"

text \<open>
  \<^verbatim>\<open>df.groupby(id_col, sort=False)[col].transform(f)\<close>: \<open>f\<close> is applied to the values of
  each group, taken in frame order, and every row receives the entry of its group's
  result at its rank within the group.
\<close>

definition positions :: "int list \<Rightarrow> int \<Rightarrow> nat list" where
  "positions ids e = filter (\<lambda>j. ids ! j = e) [0..<length ids]"

definition rank :: "int list \<Rightarrow> nat \<Rightarrow> nat" where
  "rank ids i = length (filter (\<lambda>j. ids ! j = ids ! i) [0..<i])"

definition transform :: "(series \<Rightarrow> series) \<Rightarrow> int list \<Rightarrow> series \<Rightarrow> series" where
  "transform f ids s =
     map (\<lambda>i. f (map (\<lambda>j. s ! j) (positions ids (ids ! i))) ! rank ids i) [0..<length ids]"

section \<open>Player frames\<close>

record stat_row = keyed +
  player_id :: int
  num :: "string \<Rightarrow> real option"

text \<open>The numeric value of a cell: the key columns are integers, the others float64.\<close>

definition col_val :: "stat_row \<Rightarrow> string \<Rightarrow> real option" where
  "col_val r c =
     (if c = ''gw'' then Some (real_of_int (gw r))
      else if c = ''player_id'' then Some (real_of_int (player_id r))
      else num r c)"

definition column :: "stat_row frame \<Rightarrow> string \<Rightarrow> series" where
  "column df c = map (\<lambda>r. col_val r c) (rows df)"

text \<open>\<^verbatim>\<open>df[c] = s\<close>: the column is replaced, or appended when it is new.\<close>

definition assign_col :: "string \<Rightarrow> series \<Rightarrow> stat_row frame \<Rightarrow> stat_row frame" where
  "assign_col c s df =
     \<lparr>columns = (if c \<in> set (columns df) then columns df else columns df @ [c]),
      rows = map2 (\<lambda>r v. r\<lparr>num := (num r)(c := v)\<rparr>) (rows df) s\<rparr>"

text \<open>\<^verbatim>\<open>df.sort_values([id_col, gw_col])\<close>: a stable sort on the pair of keys.\<close>

definition sort_values :: "stat_row frame \<Rightarrow> stat_row frame" where
  "sort_values df = df\<lparr>rows := sort_key (\<lambda>r. (player_id r, gw r)) (rows df)\<rparr>"

section \<open>Labels (src/labels/targets.py)\<close>

text \<open>
  The function applied to the series of one entity:
  \<^verbatim>\<open>s.shift(-1).rolling(window=h, min_periods=h).sum().shift(-(h - 1))\<close>.
\<close>

definition horizon_total :: "nat \<Rightarrow> series \<Rightarrow> series" where
  "horizon_total h s = shift (- (int h - 1)) (rolling_sum h h (shift (- 1) s))"

definition total_name :: "string \<Rightarrow> nat \<Rightarrow> string" where
  "total_name target h = target @ ''_next_'' @ str_nat h @ ''_total''"

definition per_week_name :: "string \<Rightarrow> nat \<Rightarrow> string" where
  "per_week_name target h = target @ ''_next_'' @ str_nat h @ ''_per_week''"

text \<open>
  \<^verbatim>\<open>total / float(h)\<close>. For \<open>h = 0\<close> every total is 0 or NaN, and so the quotient
  is NaN.
\<close>

definition per_week :: "nat \<Rightarrow> real option \<Rightarrow> real option" where
  "per_week h t = (if h = 0 then None else map_option (\<lambda>x. x / real h) t)"

text \<open>The inner loop \<^verbatim>\<open>for h in horizons\<close> for one target.\<close>

fun label_horizons :: "nat list \<Rightarrow> string \<Rightarrow> string \<Rightarrow> stat_row frame \<Rightarrow> stat_row frame" where
  "label_horizons [] target src df = df"
| "label_horizons (h # hs) target src df =
     (let total = transform (horizon_total h) (map player_id (rows df)) (column df src);
          df1 = assign_col (total_name target h) total df;
          df2 = assign_col (per_week_name target h) (map (per_week h) total) df1
      in label_horizons hs target src df2)"

text \<open>The outer loop \<^verbatim>\<open>for target_name, src_col in target_map.items()\<close>.\<close>

fun label_targets ::
  "(string \<times> string) list \<Rightarrow> nat list \<Rightarrow> bool \<Rightarrow> stat_row frame \<Rightarrow> error + stat_row frame" where
  "label_targets [] horizons require_all df = Inr df"
| "label_targets ((target, src) # tm) horizons require_all df =
     (if src \<notin> set (columns df)
      then (if require_all then Inl ValueError else label_targets tm horizons require_all df)
      else label_targets tm horizons require_all (label_horizons horizons target src df))"

definition DEFAULT_TARGET_MAP :: "(string \<times> string) list" where
  "DEFAULT_TARGET_MAP =
     [(''points'', ''event_points''), (''expected_goals'', ''expected_goals''),
      (''expected_assists'', ''expected_assists''),
      (''defensive_contribution'', ''defensive_contribution''),
      (''goals_conceded'', ''goals_conceded''), (''saves'', ''saves'')]"

text \<open>
  \<^verbatim>\<open>add_horizon_labels\<close> with the default key columns \<^verbatim>\<open>player_id\<close> and \<^verbatim>\<open>gw\<close>.
  Horizons are natural numbers.
\<close>

definition add_horizon_labels ::
  "stat_row frame \<Rightarrow> nat list \<Rightarrow> (string \<times> string) list \<Rightarrow> bool \<Rightarrow> error + stat_row frame" where
  "add_horizon_labels df horizons target_map require_all =
     (if ''player_id'' \<notin> set (columns df) \<or> ''gw'' \<notin> set (columns df) then Inl ValueError
      else label_targets target_map horizons require_all (sort_values df))"

definition labelable_mask :: "stat_row frame \<Rightarrow> int \<Rightarrow> int list \<Rightarrow> error + bool list" where
  "labelable_mask df max_finished horizons =
     (if ''gw'' \<notin> set (columns df) then Inl ValueError
      else
        let max_h = (if horizons \<noteq> [] then fold max (tl horizons) (hd horizons) else 0)
        in Inr (map (\<lambda>r. gw r \<le> max_finished - max_h) (rows df)))"

section \<open>Player rolling and per-90 features (src/features/player_features.py)\<close>

definition available_cols :: "stat_row frame \<Rightarrow> string list \<Rightarrow> string list" where
  "available_cols df cols = filter (\<lambda>c. c \<in> set (columns df)) cols"

definition per90_name :: "string \<Rightarrow> string" where
  "per90_name c = c @ ''_per90''"

text \<open>
  \<^verbatim>\<open>mins = pd.to_numeric(df[minutes_col], errors="coerce").replace(0, pd.NA)\<close>: a zero
  becomes a missing value.
\<close>

definition zero_to_na :: "real option \<Rightarrow> real option" where
  "zero_to_na m = (case m of None \<Rightarrow> None | Some x \<Rightarrow> if x = 0 then None else Some x)"

text \<open>\<^verbatim>\<open>(df[c] / mins) * 90.0\<close>, a missing operand giving a missing result.\<close>

definition per90_value :: "real option \<Rightarrow> real option \<Rightarrow> real option" where
  "per90_value v m =
     (case v of None \<Rightarrow> None
      | Some x \<Rightarrow> (case m of None \<Rightarrow> None | Some y \<Rightarrow> Some (x / y * 90)))"

definition per90_step :: "series \<Rightarrow> string \<Rightarrow> stat_row frame \<Rightarrow> stat_row frame" where
  "per90_step mins c df =
     (if c \<notin> set (columns df) then df
      else assign_col (per90_name c) (map2 per90_value (column df c) mins) df)"

definition add_per90_features :: "stat_row frame \<Rightarrow> string list \<Rightarrow> string \<Rightarrow> stat_row frame" where
  "add_per90_features df cols minutes_col =
     (if minutes_col \<notin> set (columns df) then df
      else let mins = map zero_to_na (column df minutes_col)
           in fold (per90_step mins) cols df)"

text \<open>The difference of two float cells, missing when one of them is.\<close>

definition sub_opt :: "real option \<Rightarrow> real option \<Rightarrow> real option" where
  "sub_opt a b = (case a of None \<Rightarrow> None | Some x \<Rightarrow> (case b of None \<Rightarrow> None | Some y \<Rightarrow> Some (x - y)))"

definition DEFAULT_ROLLING_COLS :: "string list" where
  "DEFAULT_ROLLING_COLS =
     [''minutes'', ''event_points'', ''expected_goals'', ''expected_assists'', ''goals_scored'',
      ''assists'', ''defensive_contribution'', ''saves'', ''clean_sheets'', ''goals_conceded'',
      ''influence'', ''creativity'', ''threat'', ''ict_index'', ''bps'', ''bonus'']"

definition roll_name :: "string \<Rightarrow> nat \<Rightarrow> string" where
  "roll_name col w = col @ ''_roll'' @ str_nat w"

definition trend_name :: "string \<Rightarrow> nat \<Rightarrow> nat \<Rightarrow> string" where
  "trend_name base_col w_short w_long =
     base_col @ ''_trend_'' @ str_nat w_short @ ''_'' @ str_nat w_long"

text \<open>
  The local function \<^verbatim>\<open>_rolling\<close>: the trailing mean with \<^verbatim>\<open>min_periods=1\<close>, over the
  series itself or over the series shifted by one row.
\<close>

definition rolling :: "bool \<Rightarrow> nat \<Rightarrow> series \<Rightarrow> series" where
  "rolling include_current window s =
     (if include_current then rolling_mean window 1 s
      else rolling_mean window 1 (shift 1 s))"

definition trend_pairs :: "(string \<times> nat \<times> nat) list" where
  "trend_pairs = [(''event_points'', 3, 10), (''expected_goals'', 3, 10),
                  (''expected_assists'', 3, 10)]"

text \<open>The dictionary \<^verbatim>\<open>new_cols\<close> after the loops over the columns and the windows.\<close>

definition rolled_cols ::
  "bool \<Rightarrow> nat list \<Rightarrow> string list \<Rightarrow> stat_row frame \<Rightarrow> (string \<times> series) list" where
  "rolled_cols include_current windows roll_cols df =
     fold (\<lambda>col d.
             fold (\<lambda>w d. AList.update (roll_name col w)
                               (transform (rolling include_current w) (map player_id (rows df))
                                  (column df col)) d)
                  windows d)
          roll_cols []"

text \<open>The trend features: short minus long rolling mean, where both are in \<^verbatim>\<open>new_cols\<close>.\<close>

definition add_trends :: "(string \<times> series) list \<Rightarrow> (string \<times> series) list" where
  "add_trends new_cols =
     fold (\<lambda>(base_col, w_short, w_long) d.
             case map_of d (roll_name base_col w_short) of
               None \<Rightarrow> d
             | Some s \<Rightarrow>
                 (case map_of d (roll_name base_col w_long) of
                    None \<Rightarrow> d
                  | Some l \<Rightarrow> AList.update (trend_name base_col w_short w_long)
                                           (map2 sub_opt s l) d))
          trend_pairs new_cols"

text \<open>
  \<^verbatim>\<open>pd.concat([df, pd.DataFrame(new_cols, index=df.index)], axis=1)\<close>: the new columns
  are appended. (A frame that already has a column of one of the new names would hold
  two columns of that name; a row of the model shows the new one.)
\<close>

definition concat_cols :: "stat_row frame \<Rightarrow> (string \<times> series) list \<Rightarrow> stat_row frame" where
  "concat_cols df new_cols =
     \<lparr>columns = columns df @ map fst new_cols,
      rows = map (\<lambda>i. (rows df ! i)\<lparr>num := (\<lambda>c. case map_of new_cols c of
                                                      None \<Rightarrow> num (rows df ! i) c
                                                    | Some s \<Rightarrow> s ! i)\<rparr>)
                 [0..<length (rows df)]\<rparr>"

text \<open>
  The frame after the per-90 step, and the list \<^verbatim>\<open>roll_cols\<close>: the listed columns the
  frame has, followed, when \<^verbatim>\<open>per90\<close> is set, by their per-90 columns.
\<close>

definition per90_frame :: "stat_row frame \<Rightarrow> string list \<Rightarrow> bool \<Rightarrow> string \<Rightarrow> stat_row frame" where
  "per90_frame df cols per90 minutes_col =
     (if per90 then add_per90_features df (available_cols df cols) minutes_col else df)"

definition roll_columns :: "stat_row frame \<Rightarrow> string list \<Rightarrow> bool \<Rightarrow> string \<Rightarrow> string list" where
  "roll_columns df cols per90 minutes_col =
     (let roll_cols = available_cols df cols in
      if per90
      then roll_cols @ map per90_name
             (filter (\<lambda>c. per90_name c \<in> set (columns (per90_frame df cols per90 minutes_col)))
                     roll_cols)
      else roll_cols)"

text \<open>
  \<^verbatim>\<open>add_player_rolling_features\<close> with the default key columns. Window sizes are
  natural numbers; \<^verbatim>\<open>rolling(0, min_periods=1)\<close> is refused by pandas with
  \<^verbatim>\<open>ValueError\<close> as soon as one group is transformed.
\<close>

definition add_player_rolling_features ::
  "stat_row frame \<Rightarrow> nat list \<Rightarrow> string list \<Rightarrow> bool \<Rightarrow> bool \<Rightarrow> string \<Rightarrow>
   error + stat_row frame" where
  "add_player_rolling_features df windows cols per90 include_current minutes_col =
     (if ''player_id'' \<notin> set (columns df) \<or> ''gw'' \<notin> set (columns df) then Inl ValueError
      else
        let roll_cols = roll_columns df cols per90 minutes_col;
            df2 = sort_values (per90_frame df cols per90 minutes_col)
        in if roll_cols \<noteq> [] \<and> rows df2 \<noteq> [] \<and> 0 \<in> set windows then Inl ValueError
           else
             let new_cols = add_trends (rolled_cols include_current windows roll_cols df2)
             in Inr (if new_cols \<noteq> [] then concat_cols df2 new_cols else df2))"

section \<open>Table loader (src/io/loaders.py)\<close>

text \<open>
  A row of a table read from a CSV file maps a column name to its cell. A directory
  entry of the root has a name, is a directory or not, and holds its files by name,
  each one as the table \<^verbatim>\<open>pd.read_csv\<close> makes of it. The root directory is \<open>None\<close>
  when it does not exist. Python's \<^verbatim>\<open>int(...)\<close> on a string is a parameter \<open>py_int\<close>: \<open>None\<close> stands
  for \<^verbatim>\<open>ValueError\<close>.
\<close>

type_synonym csv_row = "string \<Rightarrow> cell"

record dir_entry =
  name :: string
  is_dir :: bool
  files :: "string \<Rightarrow> csv_row frame option"

definition list_gw_dirs ::
  "(string \<Rightarrow> int option) \<Rightarrow> dir_entry list option \<Rightarrow> error + (string \<times> int \<times> dir_entry) list" where
  "list_gw_dirs py_int by_gameweek_dir =
     (case by_gameweek_dir of
        None \<Rightarrow> Inl FileNotFoundError
      | Some entries \<Rightarrow>
          Inr (sort_key (\<lambda>(n, gw_num, p). gw_num)
                 (concat (map (\<lambda>p. if is_dir p \<and> take 2 (lower (name p)) = ''gw''
                                    then (case py_int (drop 2 (name p)) of
                                            None \<Rightarrow> []
                                          | Some gw_num \<Rightarrow> [(name p, gw_num, p)])
                                    else []) entries))))"

text \<open>\<^verbatim>\<open>df.insert(0, "gw", gw_num)\<close>.\<close>

definition insert_gw :: "int \<Rightarrow> csv_row frame \<Rightarrow> csv_row frame" where
  "insert_gw gw_num df =
     \<lparr>columns = ''gw'' # columns df, rows = map (\<lambda>r. r(''gw'' := CInt gw_num)) (rows df)\<rparr>"

text \<open>
  \<^verbatim>\<open>pd.concat(frames, ignore_index=True)\<close>: the columns in order of first appearance,
  the rows one frame after the other, a cell of a column its frame lacks being missing.
\<close>

definition pd_concat :: "csv_row frame list \<Rightarrow> csv_row frame" where
  "pd_concat fs =
     \<lparr>columns = rev (remdups (rev (concat (map columns fs)))),
      rows = concat (map (\<lambda>f. map (\<lambda>r c. if c \<in> set (columns f) then r c else NA) (rows f)) fs)\<rparr>"

text \<open>The loop of \<^verbatim>\<open>load_all_gws\<close> over the gameweek directories, with its two variables.\<close>

fun load_loop ::
  "string \<Rightarrow> bool \<Rightarrow> bool \<Rightarrow> (string \<times> int \<times> dir_entry) list \<Rightarrow>
   csv_row frame list \<Rightarrow> string list option \<Rightarrow> error + (csv_row frame list \<times> string list option)" where
  "load_loop filename add_gw allow_missing [] frames first_columns = Inr (frames, first_columns)"
| "load_loop filename add_gw allow_missing ((n, gw_num, gw_path) # ds) frames first_columns =
     (case files gw_path filename of
        None \<Rightarrow>
          if allow_missing then load_loop filename add_gw allow_missing ds frames first_columns
          else Inl FileNotFoundError
      | Some df \<Rightarrow>
          let first_columns' = (case first_columns of None \<Rightarrow> Some (columns df) | Some cs \<Rightarrow> Some cs);
              df' = (if add_gw \<and> ''gw'' \<notin> set (columns df) then insert_gw gw_num df else df)
          in load_loop filename add_gw allow_missing ds (frames @ [df']) first_columns')"

definition load_all_gws ::
  "(string \<Rightarrow> int option) \<Rightarrow> dir_entry list option \<Rightarrow> string \<Rightarrow> bool \<Rightarrow> bool \<Rightarrow> error + csv_row frame" where
  "load_all_gws py_int by_gameweek_dir filename add_gw allow_missing =
     (case list_gw_dirs py_int by_gameweek_dir of
        Inl e \<Rightarrow> Inl e
      | Inr dirs \<Rightarrow>
          (case load_loop filename add_gw allow_missing dirs [] None of
             Inl e \<Rightarrow> Inl e
           | Inr (frames, first_columns) \<Rightarrow>
               if frames = [] then Inr \<lparr>columns = [], rows = []\<rparr>
               else
                 let non_empty = filter (\<lambda>f. \<not> empty f) frames in
                 if non_empty = [] then
                   Inr \<lparr>columns = (case first_columns of None \<Rightarrow> [] | Some cs \<Rightarrow> cs), rows = []\<rparr>
                 else Inr (pd_concat non_empty)))"

text \<open>Whether a directory holds the file, and the gameweek entry a directory gives.\<close>

definition has_file :: "string \<Rightarrow> dir_entry \<Rightarrow> bool" where
  "has_file filename p = (files p filename \<noteq> None)"

definition gw_dir_of :: "(string \<Rightarrow> int option) \<Rightarrow> dir_entry \<Rightarrow> (string \<times> int \<times> dir_entry) list" where
  "gw_dir_of py_int p =
     (if is_dir p \<and> take 2 (lower (name p)) = ''gw''
      then (case py_int (drop 2 (name p)) of None \<Rightarrow> [] | Some gw_num \<Rightarrow> [(name p, gw_num, p)])
      else [])"

text \<open>What a directory contributes once its file is read.\<close>

definition read_frame :: "string \<Rightarrow> bool \<Rightarrow> (string \<times> int \<times> dir_entry) \<Rightarrow> csv_row frame" where
  "read_frame filename add_gw d =
     (let df = the (files (snd (snd d)) filename)
      in if add_gw \<and> ''gw'' \<notin> set (columns df) then insert_gw (fst (snd d)) df else df)"

section \<open>Fixture difficulty (src/features/fixture_features.py)\<close>

text \<open>A row of the teams dimension table; the column \<^verbatim>\<open>id\<close> is the field \<open>id'\<close>.\<close>

record team_row =
  id' :: "int option"
  strength :: "real option"
  elo :: "real option"

record team_keyed = keyed +
  team_id :: "int option"

text \<open>A row of \<^verbatim>\<open>team_fx\<close>: a fixture seen from one of its two sides.\<close>

record team_fixture = team_keyed +
  opp_id :: "int option"
  is_home :: nat
  team_elo :: "real option"
  opp_elo :: "real option"
  opp_strength :: "real option"
  elo_delta :: "real option"

text \<open>The five columns a row of the result has for one horizon.\<close>

record horizon_feats =
  fixture_count :: nat
  home_share :: "real option"
  opp_elo_avg :: "real option"
  opp_strength_avg :: "real option"
  elo_delta_avg :: "real option"

text \<open>
  A row of the result. The dictionary \<^verbatim>\<open>row\<close> is keyed by column names that are made
  of the horizon; \<open>feats\<close> holds its entries by horizon, in order of first insertion.
\<close>

record difficulty_row = team_keyed +
  feats :: "(int \<times> horizon_feats) list"

definition ensure_gw_col :: "match_row frame \<Rightarrow> match_row frame" where
  "ensure_gw_col df =
     (if ''gw'' \<notin> set (columns df) \<and> ''gameweek'' \<in> set (columns df)
      then \<lparr>columns = columns df @ [''gw''], rows = map (\<lambda>r. r\<lparr>gw := gameweek r\<rparr>) (rows df)\<rparr>
      else df)"

definition home_row :: "match_row \<Rightarrow> team_fixture" where
  "home_row f = \<lparr>gw = gw f, team_id = home_team f, opp_id = away_team f, is_home = 1,
                 team_elo = home_team_elo f, opp_elo = away_team_elo f,
                 opp_strength = None, elo_delta = None\<rparr>"

definition away_row :: "match_row \<Rightarrow> team_fixture" where
  "away_row f = \<lparr>gw = gw f, team_id = away_team f, opp_id = home_team f, is_home = 0,
                 team_elo = away_team_elo f, opp_elo = home_team_elo f,
                 opp_strength = None, elo_delta = None\<rparr>"

text \<open>
  \<^verbatim>\<open>left.merge(right, on=key, how="left")\<close>: a left row is paired with every right row
  of the same key, and kept once, with missing values, when there is none.
\<close>

definition merge_left ::
  "('l \<Rightarrow> 'k) \<Rightarrow> ('r \<Rightarrow> 'k) \<Rightarrow> ('l \<Rightarrow> 'r option \<Rightarrow> 'o) \<Rightarrow> 'l list \<Rightarrow> 'r list \<Rightarrow> 'o list" where
  "merge_left lkey rkey pair ls rs =
     concat (map (\<lambda>l. case filter (\<lambda>r. rkey r = lkey l) rs of
                          [] \<Rightarrow> [pair l None]
                        | ms \<Rightarrow> map (\<lambda>r. pair l (Some r)) ms) ls)"

text \<open>The merge of \<^verbatim>\<open>opp_strength\<close> on \<^verbatim>\<open>opp_id\<close>.\<close>

definition merge_opp_strength :: "team_row list \<Rightarrow> team_fixture list \<Rightarrow> team_fixture list" where
  "merge_opp_strength tdim tfx =
     merge_left opp_id id'
       (\<lambda>r d. r\<lparr>opp_strength := (case d of None \<Rightarrow> None | Some t \<Rightarrow> strength t)\<rparr>) tfx tdim"

text \<open>
  The merge of \<^verbatim>\<open>team_elo_dim\<close> on \<^verbatim>\<open>team_id\<close>, followed by
  \<^verbatim>\<open>team_fx["team_elo"].fillna(team_fx["team_elo_dim"])\<close>.
\<close>

definition merge_team_elo :: "team_row list \<Rightarrow> team_fixture list \<Rightarrow> team_fixture list" where
  "merge_team_elo tdim tfx =
     merge_left team_id id'
       (\<lambda>r d. r\<lparr>team_elo := (case team_elo r of
                                   Some e \<Rightarrow> Some e
                                 | None \<Rightarrow> (case d of None \<Rightarrow> None | Some t \<Rightarrow> elo t))\<rparr>) tfx tdim"

text \<open>\<^verbatim>\<open>series.mean()\<close>: the mean of the observed values, NaN when there is none.\<close>

definition mean_obs :: "series \<Rightarrow> real option" where
  "mean_obs xs =
     (let obs = observed xs in if obs = [] then None else Some (sum_list obs / real (length obs)))"

text \<open>The rows \<^verbatim>\<open>upcoming\<close> of a team at a gameweek for a horizon.\<close>

definition upcoming :: "team_fixture list \<Rightarrow> int \<Rightarrow> int \<Rightarrow> int \<Rightarrow> team_fixture list" where
  "upcoming tfx t current_gw h =
     filter (\<lambda>r. current_gw < gw r \<and> gw r \<le> current_gw + h)
       (filter (\<lambda>r. team_id r = Some t) tfx)"

definition horizon_row :: "bool \<Rightarrow> team_fixture list \<Rightarrow> horizon_feats" where
  "horizon_row has_strength up =
     (let count = length up in
      if count = 0 then
        \<lparr>fixture_count = count, home_share = None, opp_elo_avg = None,
         opp_strength_avg = None, elo_delta_avg = None\<rparr>
      else
        \<lparr>fixture_count = count,
         home_share = mean_obs (map (\<lambda>r. Some (real (is_home r))) up),
         opp_elo_avg = mean_obs (map opp_elo up),
         opp_strength_avg = (if has_strength then mean_obs (map opp_strength up) else None),
         elo_delta_avg = mean_obs (map elo_delta up)\<rparr>)"

definition feature_names :: "int \<Rightarrow> string list" where
  "feature_names h =
     [''fixture_count_next_'' @ str_int h, ''home_share_next_'' @ str_int h,
      ''opp_elo_avg_next_'' @ str_int h, ''opp_strength_avg_next_'' @ str_int h,
      ''elo_delta_avg_next_'' @ str_int h]"

definition first_occurrences :: "'a list \<Rightarrow> 'a list" where
  "first_occurrences xs = rev (remdups (rev xs))"

text \<open>
  \<^verbatim>\<open>teams_dim is not None and not teams_dim.empty\<close>, and the two column tests that guard
  the merges.
\<close>

definition usable_dim :: "team_row frame option \<Rightarrow> team_row frame option" where
  "usable_dim teams_dim =
     (case teams_dim of None \<Rightarrow> None | Some d \<Rightarrow> if empty d then None else Some d)"

definition has_strength :: "team_row frame option \<Rightarrow> bool" where
  "has_strength teams_dim =
     (case usable_dim teams_dim of
        None \<Rightarrow> False
      | Some d \<Rightarrow> ''id'' \<in> set (columns d) \<and> ''strength'' \<in> set (columns d))"

definition has_elo :: "team_row frame option \<Rightarrow> bool" where
  "has_elo teams_dim =
     (case usable_dim teams_dim of
        None \<Rightarrow> False
      | Some d \<Rightarrow> ''id'' \<in> set (columns d) \<and> ''elo'' \<in> set (columns d))"

text \<open>The frame \<^verbatim>\<open>team_fx\<close>: both sides of every fixture, merged with the dimension.\<close>

definition team_fx_rows :: "match_row list \<Rightarrow> team_row frame option \<Rightarrow> team_fixture list" where
  "team_fx_rows fx teams_dim =
     (let team_fx0 = map home_row fx @ map away_row fx;
          team_fx1 = (if has_strength teams_dim
                      then merge_opp_strength (rows (the (usable_dim teams_dim))) team_fx0
                      else team_fx0);
          team_fx2 = (if has_elo teams_dim
                      then merge_team_elo (rows (the (usable_dim teams_dim))) team_fx1
                      else team_fx1)
      in map (\<lambda>r. r\<lparr>elo_delta := sub_opt (team_elo r) (opp_elo r)\<rparr>) team_fx2)"

text \<open>The two nested loops over the teams and the gameweeks that fill \<^verbatim>\<open>rows\<close>.\<close>

definition difficulty_rows :: "bool \<Rightarrow> team_fixture list \<Rightarrow> int list \<Rightarrow> difficulty_row list" where
  "difficulty_rows with_strength team_fx horizons =
     (let min_gw = fold min (map gw (tl team_fx)) (gw (hd team_fx));
          max_gw = fold max (map gw (tl team_fx)) (gw (hd team_fx));
          teams = sort (remdups (concat (map (\<lambda>r. case team_id r of None \<Rightarrow> [] | Some t \<Rightarrow> [t])
                                              team_fx)))
      in concat (map (\<lambda>t. map (\<lambda>current_gw.
                   \<lparr>gw = current_gw, team_id = Some t,
                    feats = map (\<lambda>h. (h, horizon_row with_strength (upcoming team_fx t current_gw h)))
                                (first_occurrences horizons)\<rparr>)
                 [min_gw..max_gw]) teams))"

definition required_fixture_columns :: "string list" where
  "required_fixture_columns =
     [''gw'', ''home_team'', ''away_team'', ''home_team_elo'', ''away_team_elo'']"

definition build_team_fixture_difficulty ::
  "match_row frame \<Rightarrow> team_row frame option \<Rightarrow> int list \<Rightarrow> error + difficulty_row frame" where
  "build_team_fixture_difficulty fixtures teams_dim horizons =
     (if empty fixtures then Inr \<lparr>columns = [], rows = []\<rparr>
      else
        let fx = ensure_gw_col fixtures in
        if filter (\<lambda>c. c \<notin> set (columns fx)) required_fixture_columns \<noteq> [] then Inl ValueError
        else
          let team_fx = team_fx_rows (rows fx) teams_dim;
              out = difficulty_rows (has_strength teams_dim) team_fx horizons
          in Inr \<lparr>columns = (if out = [] then []
                             else [''team_id'', ''gw''] @
                                  concat (map feature_names (first_occurrences horizons))),
                  rows = out\<rparr>)"

text \<open>The key of a row of \<^verbatim>\<open>team_fx\<close>: its team and its gameweek.\<close>

definition tkey :: "team_fixture \<Rightarrow> int option \<times> int" where
  "tkey r = (team_id r, gw r)"

section \<open>Substitution rates (src/features/availability_flags.py)\<close>

text \<open>
  The player-match table has rows of the shape of a player frame: \<^verbatim>\<open>player_id\<close> and
  \<^verbatim>\<open>gw\<close> are its keys, \<^verbatim>\<open>match_id\<close>, \<^verbatim>\<open>start_min\<close>, \<^verbatim>\<open>finish_min\<close> and
  \<^verbatim>\<open>minutes_played\<close> are numeric columns. The function is modelled with its default
  key columns \<^verbatim>\<open>player_id\<close> and \<^verbatim>\<open>gw\<close>.
\<close>

text \<open>\<^verbatim>\<open>astype(int)\<close> on a float: truncation towards zero.\<close>

definition trunc :: "real \<Rightarrow> int" where
  "trunc x = (if 0 \<le> x then \<lfloor>x\<rfloor> else \<lceil>x\<rceil>)"

text \<open>
  Lines 87 to 94: the gameweek of every player-match row. Without a \<^verbatim>\<open>gw\<close> column the
  table is merged with \<^verbatim>\<open>matches[["match_id", "gw"]]\<close>, which raises \<^verbatim>\<open>KeyError\<close> when
  \<^verbatim>\<open>matches\<close> has no \<^verbatim>\<open>gw\<close> column, and the rows without a match are dropped. With a
  \<^verbatim>\<open>gw\<close> column, and both \<^verbatim>\<open>gw_x\<close> and \<^verbatim>\<open>gw_y\<close>, \<^verbatim>\<open>gw\<close> is \<^verbatim>\<open>gw_y\<close> filled from
  \<^verbatim>\<open>gw_x\<close>; rows where it is missing are dropped by \<^verbatim>\<open>dropna\<close>.
\<close>

definition derive_gw :: "stat_row frame \<Rightarrow> match_row frame \<Rightarrow> error + stat_row frame" where
  "derive_gw pm matches =
     (if ''gw'' \<notin> set (columns pm) then
        (if ''match_id'' \<notin> set (columns matches) \<or> ''gw'' \<notin> set (columns matches)
         then Inl KeyError
         else Inr \<lparr>columns = columns pm @ [''gw''],
                   rows = concat (map (\<lambda>r. map (\<lambda>m. r\<lparr>gw := gw m\<rparr>)
                                        (filter (\<lambda>m. num r ''match_id'' = Some (real_of_int (match_id m)))
                                                (rows matches)))
                                  (rows pm))\<rparr>)
      else if ''gw_y'' \<in> set (columns pm) \<and> ''gw_x'' \<in> set (columns pm) then
        Inr (pm\<lparr>rows := concat (map (\<lambda>r. case (case num r ''gw_y'' of
                                                   Some v \<Rightarrow> Some v
                                                 | None \<Rightarrow> num r ''gw_x'') of
                                              None \<Rightarrow> []
                                            | Some v \<Rightarrow> [r\<lparr>gw := trunc v\<rparr>]) (rows pm))\<rparr>)
      else Inr pm)"

text \<open>Comparisons of a float cell with a number; a missing cell compares false.\<close>

definition le_cell :: "real option \<Rightarrow> real \<Rightarrow> bool" where
  "le_cell a b = (case a of None \<Rightarrow> False | Some x \<Rightarrow> x \<le> b)"

definition lt_cell :: "real option \<Rightarrow> real \<Rightarrow> bool" where
  "lt_cell a b = (case a of None \<Rightarrow> False | Some x \<Rightarrow> x < b)"

definition gt_cell :: "real option \<Rightarrow> real \<Rightarrow> bool" where
  "gt_cell a b = (case a of None \<Rightarrow> False | Some x \<Rightarrow> b < x)"

definition early_sub :: "int \<Rightarrow> int \<Rightarrow> stat_row \<Rightarrow> real" where
  "early_sub early_sub_min sub_on_min r =
     (if le_cell (num r ''start_min'') (real_of_int sub_on_min) \<and>
         lt_cell (num r ''finish_min'') (real_of_int early_sub_min) \<and>
         gt_cell (num r ''minutes_played'') 0 then 1 else 0)"

definition sub_on :: "int \<Rightarrow> stat_row \<Rightarrow> real" where
  "sub_on sub_on_min r = (if gt_cell (num r ''start_min'') (real_of_int sub_on_min) then 1 else 0)"

definition mean :: "real list \<Rightarrow> real" where
  "mean xs = sum_list xs / real (length xs)"

text \<open>
  \<^verbatim>\<open>gw_rates\<close>: one row per player and gameweek, keys ascending, with the two rates
  and their rolling means per player.
\<close>

definition gw_rates ::
  "nat \<Rightarrow> int \<Rightarrow> int \<Rightarrow> stat_row list \<Rightarrow> ((int \<times> int) \<times> real option \<times> real option) list" where
  "gw_rates window_gw early_sub_min sub_on_min pm =
     (let keys = sort (remdups (map (\<lambda>r. (player_id r, gw r)) pm));
          grp = (\<lambda>k. filter (\<lambda>r. (player_id r, gw r) = k) pm);
          early = map (\<lambda>k. Some (mean (map (early_sub early_sub_min sub_on_min) (grp k)))) keys;
          on = map (\<lambda>k. Some (mean (map (sub_on sub_on_min) (grp k)))) keys;
          ids = map fst keys
      in zip keys (zip (transform (rolling_mean window_gw 1) ids early)
                       (transform (rolling_mean window_gw 1) ids on)))"

definition add_substitution_rates ::
  "stat_row frame \<Rightarrow> stat_row frame \<Rightarrow> match_row frame \<Rightarrow> nat \<Rightarrow> int \<Rightarrow> int \<Rightarrow>
   error + stat_row frame" where
  "add_substitution_rates base_df playermatchstats matches window_gw early_sub_min sub_on_min =
     (if empty playermatchstats \<or> empty matches then Inr base_df
      else if ''match_id'' \<notin> set (columns playermatchstats) \<or> ''match_id'' \<notin> set (columns matches)
      then Inr base_df
      else if ''player_id'' \<notin> set (columns playermatchstats) then Inr base_df
      else
        (case derive_gw playermatchstats (ensure_gw_col matches) of
           Inl e \<Rightarrow> Inl e
         | Inr pm \<Rightarrow>
             if ''gw'' \<notin> set (columns pm) then Inr base_df
             else if ''start_min'' \<notin> set (columns pm) \<or> ''finish_min'' \<notin> set (columns pm)
             then Inr base_df
             else if ''minutes_played'' \<notin> set (columns pm) then Inl KeyError
             else if window_gw = 0 \<and> rows pm \<noteq> [] then Inl ValueError
             else if ''player_id'' \<notin> set (columns base_df) \<or> ''gw'' \<notin> set (columns base_df)
             then Inl KeyError
             else
               let rates = map_of (gw_rates window_gw early_sub_min sub_on_min (rows pm));
                   rate = (\<lambda>r. rates (player_id r, gw r))
               in Inr \<lparr>columns = columns base_df @ [''early_sub_rate_last_n'', ''sub_on_rate_last_n''],
                        rows = map (\<lambda>r. r\<lparr>num := (num r)
                                    (''early_sub_rate_last_n'' :=
                                       (case rate r of None \<Rightarrow> None | Some (e, s) \<Rightarrow> e),
                                     ''sub_on_rate_last_n'' :=
                                       (case rate r of None \<Rightarrow> None | Some (e, s) \<Rightarrow> s))\<rparr>)
                                   (rows base_df)\<rparr>))"

section \<open>Auxiliary notions\<close>

text \<open>
  Used in the proofs about generated column names only: the decimal digits, and the
  number a string of digits stands for.
\<close>

definition is_digit :: "char \<Rightarrow> bool" where
  "is_digit c = (c \<in> set ''0123456789'')"

definition digit_val :: "char \<Rightarrow> nat" where
  "digit_val c = (case map_of (zip ''0123456789'' [0, 1, 2, 3, 4, 5, 6, 7, 8, 9]) c of
                    Some d \<Rightarrow> d | None \<Rightarrow> 0)"

definition nat_of_str :: "string \<Rightarrow> nat" where
  "nat_of_str s = foldl (\<lambda>acc c. 10 * acc + digit_val c) 0 s"

text \<open>Rows that agree on the keys and on one column.\<close>

definition same_on :: "string \<Rightarrow> stat_row \<Rightarrow> stat_row \<Rightarrow> bool" where
  "same_on c x y = (player_id x = player_id y \<and> gw x = gw y \<and> col_val x c = col_val y c)"

section \<open>Properties of the finished-gameweek index\<close>

lemma str_int_0: "str_int 0 = ''0''" by (simp add: str_int_def str_nat.simps digit_char_def)
lemma str_int_1: "str_int 1 = ''1''" by (simp add: str_int_def str_nat.simps digit_char_def)


lemma is_space_lower: "is_space c \<Longrightarrow> lower_char c = c"
  unfolding is_space_def by (elim disjE | simp add: lower_char_def)+

lemma strip_id: "s \<noteq> [] \<Longrightarrow> \<not> is_space (hd s) \<Longrightarrow> \<not> is_space (last s) \<Longrightarrow> strip s = s"
proof -
  assume a: "s \<noteq> []" "\<not> is_space (hd s)" "\<not> is_space (last s)"
  then have "dropWhile is_space s = s" by (cases s) auto
  moreover have "dropWhile is_space (rev s) = rev s" using a by (cases "rev s") (auto simp: hd_rev)
  ultimately show ?thesis by (simp add: strip_def)
qed

lemma to_bool_CBool: "to_bool (CBool b) = b"
  by (cases b) (simp_all add: to_bool_def lower_def strip_def is_space_def lower_char_def)

lemma to_bool_CInt1: "to_bool (CInt 1) = True"
  by (simp add: to_bool_def str_int_1 lower_def strip_def is_space_def lower_char_def)
lemma to_bool_CInt0: "to_bool (CInt 0) = False"
  by (simp add: to_bool_def str_int_0 lower_def strip_def is_space_def lower_char_def)

lemma lower_not_space: "\<not> is_space (lower_char c) \<Longrightarrow> \<not> is_space c"
  using is_space_lower by force

lemma lower_strip_id:
  assumes "lower s = t" "t \<noteq> []" "\<not> is_space (hd t)" "\<not> is_space (last t)"
  shows "strip s = s"
proof -
  have ne: "s \<noteq> []" using assms(1,2) by (auto simp: lower_def)
  have "hd t = lower_char (hd s)" using assms(1) ne by (cases s) (auto simp: lower_def)
  then have h: "\<not> is_space (hd s)" using assms(3) lower_not_space by simp
  have "last t = lower_char (last s)" using assms(1) ne by (auto simp: lower_def last_map)
  then have l: "\<not> is_space (last s)" using assms(4) lower_not_space by simp
  show ?thesis using ne h l by (rule strip_id)
qed

lemma strip_true: "lower s = ''true'' \<Longrightarrow> strip s = s"
  by (rule lower_strip_id, assumption) (simp_all add: is_space_def)
lemma strip_t: "lower s = ''t'' \<Longrightarrow> strip s = s"
  by (rule lower_strip_id, assumption) (simp_all add: is_space_def)
lemma strip_yes: "lower s = ''yes'' \<Longrightarrow> strip s = s"
  by (rule lower_strip_id, assumption) (simp_all add: is_space_def)
lemma strip_false: "lower s = ''false'' \<Longrightarrow> strip s = s"
  by (rule lower_strip_id, assumption) (simp_all add: is_space_def)

lemma to_bool_str_true:
  assumes "lower s = ''true'' \<or> lower s = ''t'' \<or> lower s = ''yes''"
  shows "to_bool (CStr s)"
proof -
  have "strip s = s" using assms strip_true strip_t strip_yes by blast
  then have "to_bool (CStr s) = (lower s \<in> set [''true'', ''1'', ''t'', ''yes''])"
    by (simp only: to_bool_def astype_str.simps)
  then show ?thesis using assms by auto
qed

lemma to_bool_str_false:
  assumes "lower s = ''false''"
  shows "\<not> to_bool (CStr s)"
proof -
  have "strip s = s" using assms by (rule strip_false)
  then have "to_bool (CStr s) = (lower s \<in> set [''true'', ''1'', ''t'', ''yes''])"
    by (simp only: to_bool_def astype_str.simps)
  then show ?thesis using assms by simp
qed

text \<open>
  The encodings of the finished flag that \<^verbatim>\<open>_to_bool_series\<close> maps to the boolean they
  stand for: a boolean cell to itself, the integer cells 1 and 0 to true and false, and
  the strings \<^verbatim>\<open>true\<close>, \<^verbatim>\<open>yes\<close>, \<^verbatim>\<open>t\<close> (true) and \<^verbatim>\<open>false\<close> (false) in any mix of upper
  and lower case. The result has one boolean per cell.
\<close>

lemma to_bool_series_encodings:
  "length (to_bool_series series) = length series \<and>
   (\<forall>i < length series.
      (\<forall>b. series ! i = CBool b \<longrightarrow> to_bool_series series ! i = b) \<and>
      (series ! i = CInt 1 \<longrightarrow> to_bool_series series ! i) \<and>
      (series ! i = CInt 0 \<longrightarrow> \<not> to_bool_series series ! i) \<and>
      (\<forall>s. series ! i = CStr s \<and> (lower s = ''true'' \<or> lower s = ''t'' \<or> lower s = ''yes'')
            \<longrightarrow> to_bool_series series ! i) \<and>
      (\<forall>s. series ! i = CStr s \<and> lower s = ''false'' \<longrightarrow> \<not> to_bool_series series ! i))"
  by (simp add: to_bool_series_def to_bool_CBool to_bool_CInt1 to_bool_CInt0
        to_bool_str_true to_bool_str_false)

lemma to_bool_series_encodings_example:
  "length (to_bool_series [CStr ''Yes'', CBool False, CStr ''FALSE'']) = 3 \<and>
   to_bool_series [CStr ''Yes'', CBool False, CStr ''FALSE''] ! 0 \<and>
   \<not> to_bool_series [CStr ''Yes'', CBool False, CStr ''FALSE''] ! 1 \<and>
   \<not> to_bool_series [CStr ''Yes'', CBool False, CStr ''FALSE''] ! 2"
proof -
  let ?xs = "[CStr ''Yes'', CBool False, CStr ''FALSE'']"
  note enc = to_bool_series_encodings [of ?xs]
  have l2: "lower ''Yes'' = ''yes''" and l4: "lower ''FALSE'' = ''false''"
    by (simp_all add: lower_def lower_char_def)
  have len: "length (to_bool_series ?xs) = 3" using enc by simp
  have a0: "to_bool_series ?xs ! 0"
    using enc [THEN conjunct2, rule_format, of 0] l2 by simp
  have a1: "\<not> to_bool_series ?xs ! 1"
    using enc [THEN conjunct2, rule_format, of 1] by auto
  have a2: "\<not> to_bool_series ?xs ! 2"
    using enc [THEN conjunct2, rule_format, of 2] l4 by simp
  show ?thesis using len a0 a1 a2 by blast
qed

lemma in_dropWhile: "x \<in> set s \<Longrightarrow> \<not> P x \<Longrightarrow> x \<in> set (dropWhile P s)"
  by (induction s) auto

lemma point_strip:
  assumes "CHR ''.'' \<in> set s"
  shows "CHR ''.'' \<in> set (strip s)"
proof -
  have ns: "\<not> is_space CHR ''.''" by (simp add: is_space_def)
  have "CHR ''.'' \<in> set (dropWhile is_space s)" using assms ns by (rule in_dropWhile)
  then have "CHR ''.'' \<in> set (rev (dropWhile is_space s))" by simp
  then have "CHR ''.'' \<in> set (dropWhile is_space (rev (dropWhile is_space s)))"
    using ns by (rule in_dropWhile)
  then show ?thesis by (simp add: strip_def)
qed

lemma point_lower:
  assumes "CHR ''.'' \<in> set s"
  shows "CHR ''.'' \<in> set (lower s)"
proof -
  have "lower_char CHR ''.'' = CHR ''.''" by (simp add: lower_char_def)
  then show ?thesis using assms unfolding lower_def by (metis image_eqI set_map)
qed

lemma point_str_float: "CHR ''.'' \<in> set (str_float x)"
  by (simp add: str_float_def Let_def)

lemma to_bool_CFloat: "\<not> to_bool (CFloat x)"
proof -
  have "CHR ''.'' \<in> set (lower (strip (astype_str (CFloat x))))"
    by (simp add: point_lower point_strip point_str_float)
  moreover have "\<forall>t \<in> set [''true'', ''1'', ''t'', ''yes'']. CHR ''.'' \<notin> set t" by simp
  ultimately show ?thesis unfolding to_bool_def by blast
qed

text \<open>
  Claim C5 (numeric 0/1 map to the corresponding boolean) does not hold for a float
  column. \<^verbatim>\<open>_to_bool_series\<close> compares the text of a cell with \<^verbatim>\<open>true\<close>, \<^verbatim>\<open>1\<close>, \<^verbatim>\<open>t\<close> and
  \<^verbatim>\<open>yes\<close>; the text of a float has a decimal point (\<^verbatim>\<open>str(1.0)\<close> is \<^verbatim>\<open>'1.0'\<close>), so every
  float cell of the finished column, the number 1 included, is mapped to false.
\<close>

theorem to_bool_series_float:
  "length (to_bool_series series) = length series \<and>
   (\<forall>i < length series. \<forall>x. series ! i = CFloat x \<longrightarrow> \<not> to_bool_series series ! i)"
  by (simp add: to_bool_series_def to_bool_CFloat)

theorem to_bool_series_float_witness:
  "astype_str (CFloat 1) = ''1.0'' \<and>
   length (to_bool_series [CFloat 1, CFloat 0, NA]) = 3 \<and>
   \<not> to_bool_series [CFloat 1, CFloat 0, NA] ! 0"
proof -
  note flt = to_bool_series_float [of "[CFloat 1, CFloat 0, NA]"]
  have r: "astype_str (CFloat 1) = ''1.0''" by code_simp
  have len: "length (to_bool_series [CFloat 1, CFloat 0, NA]) = 3" using flt by simp
  have a0: "\<not> to_bool_series [CFloat 1, CFloat 0, NA] ! 0"
    using flt [THEN conjunct2, rule_format, of 0 1] by simp
  show ?thesis using r len a0 by blast
qed

text \<open>
  The consequence for the index: a gameweek whose matches all carry the float 1.0 in
  \<^verbatim>\<open>finished\<close> (the dtype of a 0/1 column with a blank) is not reported finished, whereas
  the same table with integer flags reports it.
\<close>

lemma compute_finished_gws_float_example:
  "compute_finished_gws
     \<lparr>columns = [''gw'', ''finished''],
      rows = [\<lparr>gw = 1, gameweek = 1, home_team = Some 1, away_team = Some 2,
                home_team_elo = None, away_team_elo = None, finished = CFloat 1,
                match_id = 1\<rparr>,
              \<lparr>gw = 2, gameweek = 2, home_team = Some 1, away_team = Some 2,
                home_team_elo = None, away_team_elo = None, finished = NA,
                match_id = 2\<rparr>]\<rparr>
   = Inr \<lparr>finished_gws = [], max_finished_gw = 0\<rparr>"
  by code_simp

lemma compute_finished_gws_int_example:
  "compute_finished_gws
     \<lparr>columns = [''gw'', ''finished''],
      rows = [\<lparr>gw = 1, gameweek = 1, home_team = Some 1, away_team = Some 2,
                home_team_elo = None, away_team_elo = None, finished = CInt 1,
                match_id = 1\<rparr>,
              \<lparr>gw = 2, gameweek = 2, home_team = Some 1, away_team = Some 2,
                home_team_elo = None, away_team_elo = None, finished = CInt 0,
                match_id = 2\<rparr>]\<rparr>
   = Inr \<lparr>finished_gws = [1], max_finished_gw = 1\<rparr>"
  by code_simp

lemma fold_max_Max: "xs \<noteq> [] \<Longrightarrow> fold max (tl xs) (hd xs) = Max (set xs)"
  by (cases xs) (simp_all add: Max.set_eq_fold [symmetric])

lemma groupby_sorted_keys: "map fst (groupby_sorted key rs) = sort (remdups (map key rs))"
  by (simp add: groupby_sorted_def comp_def)

lemma finished_filter:
  "map fst (filter (\<lambda>(g, grp). list_all snd grp) (groupby_sorted fst tmp)) =
   filter (\<lambda>g. list_all snd (filter (\<lambda>r. fst r = g) tmp)) (sort (remdups (map fst tmp)))"
  by (simp add: groupby_sorted_def filter_map comp_def)

lemma cfg_run:
  assumes gwc: "''gw'' \<in> set (columns matches) \<or> ''gameweek'' \<in> set (columns matches)"
      and fin: "''finished'' \<in> set (columns matches)"
  shows "compute_finished_gws matches = 
     (let tmp = map (\<lambda>r. (gw_tag matches r, to_bool (finished r))) (rows matches);
            fin = map fst (filter (\<lambda>(g, grp). list_all snd grp) (groupby_sorted fst tmp));
            max_finished = (if fin \<noteq> [] then fold max (tl fin) (hd fin) else 0)
        in Inr \<lparr>finished_gws = fin, max_finished_gw = max_finished\<rparr>)"
proof (cases "''gw'' \<in> set (columns matches)")
  case True
  then show ?thesis using fin unfolding compute_finished_gws_def by simp
next
  case False
  then have "''gameweek'' \<in> set (columns matches)" using gwc by blast
  then show ?thesis using fin False unfolding compute_finished_gws_def by simp
qed

text \<open>
  Claim C2. For a match table that has a gameweek column (\<^verbatim>\<open>gw\<close>, or the alias
  \<^verbatim>\<open>gameweek\<close>) and a \<^verbatim>\<open>finished\<close> column, \<^verbatim>\<open>compute_finished_gws\<close> returns an index
  and raises nothing. A gameweek \<open>g\<close> is in \<open>finished_gws\<close> exactly when some match row
  is tagged \<open>g\<close> and every match row tagged \<open>g\<close> has a truthy finished flag, so a
  gameweek without rows is left out. The list is ascending without repetition, and
  \<open>max_finished_gw\<close> is its maximum, or 0 when it is empty.
\<close>

theorem compute_finished_gws_spec:
  assumes gwc: "''gw'' \<in> set (columns matches) \<or> ''gameweek'' \<in> set (columns matches)"
      and fin: "''finished'' \<in> set (columns matches)"
  shows "\<exists>idx. compute_finished_gws matches = Inr idx \<and>
           (\<forall>g. g \<in> set (finished_gws idx) \<longleftrightarrow>
                  (\<exists>r \<in> set (rows matches). gw_tag matches r = g) \<and>
                  (\<forall>r \<in> set (rows matches). gw_tag matches r = g \<longrightarrow> to_bool (finished r))) \<and>
           sorted (finished_gws idx) \<and> distinct (finished_gws idx) \<and>
           max_finished_gw idx =
             (if finished_gws idx = [] then 0 else Max (set (finished_gws idx)))"
proof -
  define tmp where "tmp = map (\<lambda>r. (gw_tag matches r, to_bool (finished r))) (rows matches)"
  define fl where "fl = filter (\<lambda>g. list_all snd (filter (\<lambda>r. fst r = g) tmp)) (sort (remdups (map fst tmp)))"
  define idx where "idx = \<lparr>finished_gws = fl, max_finished_gw = (if fl \<noteq> [] then fold max (tl fl) (hd fl) else 0)\<rparr>"
  have run: "compute_finished_gws matches = Inr idx"
    apply (subst cfg_run [OF gwc fin])
    apply (simp only: Let_def finished_filter)
    apply (simp only: idx_def fl_def tmp_def)
    done
  have mem: "g \<in> set fl \<longleftrightarrow>
                  (\<exists>r \<in> set (rows matches). gw_tag matches r = g) \<and>
                  (\<forall>r \<in> set (rows matches). gw_tag matches r = g \<longrightarrow> to_bool (finished r))" for g
  proof -
    have "g \<in> set fl \<longleftrightarrow> g \<in> fst ` set tmp \<and> (\<forall>p \<in> set tmp. fst p = g \<longrightarrow> snd p)"
      unfolding fl_def by (auto simp add: list_all_iff)
    also have "g \<in> fst ` set tmp \<longleftrightarrow> (\<exists>r \<in> set (rows matches). gw_tag matches r = g)"
      unfolding tmp_def by force
    also have "(\<forall>p \<in> set tmp. fst p = g \<longrightarrow> snd p) \<longleftrightarrow>
               (\<forall>r \<in> set (rows matches). gw_tag matches r = g \<longrightarrow> to_bool (finished r))"
      unfolding tmp_def by simp
    finally show ?thesis .
  qed
  have srt: "sorted fl" unfolding fl_def by (simp add: sorted_wrt_filter)
  have dst: "distinct fl" unfolding fl_def by simp
  have mx: "max_finished_gw idx = (if fl = [] then 0 else Max (set fl))"
    by (simp add: idx_def fold_max_Max)
  have fg: "finished_gws idx = fl" by (simp add: idx_def)
  show ?thesis using run mem srt dst mx fg by (intro exI[of _ idx]) simp
qed

theorem compute_finished_gws_spec_witness:
  "''gw'' \<in> set (columns \<lparr>columns = [''gw'', ''finished''],
       rows = [\<lparr>gw = 2, gameweek = 0, home_team = None, away_team = None,
                 home_team_elo = None, away_team_elo = None, finished = CStr ''True'', match_id = 0\<rparr>,
               \<lparr>gw = 1, gameweek = 0, home_team = None, away_team = None,
                 home_team_elo = None, away_team_elo = None, finished = CInt 1, match_id = 0\<rparr>,
               \<lparr>gw = 2, gameweek = 0, home_team = None, away_team = None,
                 home_team_elo = None, away_team_elo = None, finished = CBool False, match_id = 0\<rparr>,
               \<lparr>gw = 3, gameweek = 0, home_team = None, away_team = None,
                 home_team_elo = None, away_team_elo = None, finished = CStr ''yes'', match_id = 0\<rparr>]\<rparr>) \<and>
   compute_finished_gws \<lparr>columns = [''gw'', ''finished''],
       rows = [\<lparr>gw = 2, gameweek = 0, home_team = None, away_team = None,
                 home_team_elo = None, away_team_elo = None, finished = CStr ''True'', match_id = 0\<rparr>,
               \<lparr>gw = 1, gameweek = 0, home_team = None, away_team = None,
                 home_team_elo = None, away_team_elo = None, finished = CInt 1, match_id = 0\<rparr>,
               \<lparr>gw = 2, gameweek = 0, home_team = None, away_team = None,
                 home_team_elo = None, away_team_elo = None, finished = CBool False, match_id = 0\<rparr>,
               \<lparr>gw = 3, gameweek = 0, home_team = None, away_team = None,
                 home_team_elo = None, away_team_elo = None, finished = CStr ''yes'', match_id = 0\<rparr>]\<rparr>
   = Inr \<lparr>finished_gws = [1, 3], max_finished_gw = 3\<rparr>"
proof -
  let ?m = "\<lparr>columns = [''gw'', ''finished''],
       rows = [\<lparr>gw = 2, gameweek = 0, home_team = None, away_team = None,
                 home_team_elo = None, away_team_elo = None, finished = CStr ''True'', match_id = 0\<rparr>,
               \<lparr>gw = 1, gameweek = 0, home_team = None, away_team = None,
                 home_team_elo = None, away_team_elo = None, finished = CInt 1, match_id = 0\<rparr>,
               \<lparr>gw = 2, gameweek = 0, home_team = None, away_team = None,
                 home_team_elo = None, away_team_elo = None, finished = CBool False, match_id = 0\<rparr>,
               \<lparr>gw = 3, gameweek = 0, home_team = None, away_team = None,
                 home_team_elo = None, away_team_elo = None, finished = CStr ''yes'', match_id = 0\<rparr>]\<rparr>"
  have c: "''gw'' \<in> set (columns ?m) \<or> ''gameweek'' \<in> set (columns ?m)"
    and f: "''finished'' \<in> set (columns ?m)" by simp_all
  have t1: "to_bool (CStr ''True'')" by (rule to_bool_str_true) (simp add: lower_def lower_char_def)
  have t2: "to_bool (CStr ''yes'')" by (rule to_bool_str_true) (simp add: lower_def lower_char_def)
  have ev: "compute_finished_gws ?m = Inr \<lparr>finished_gws = [1, 3], max_finished_gw = 3\<rparr>"
    by (simp add: compute_finished_gws_def groupby_sorted_def gw_tag_def
          to_bool_CInt1 to_bool_CBool t1 t2)
  from compute_finished_gws_spec [OF c f] obtain idx where
    run: "compute_finished_gws ?m = Inr idx"
    and mem: "\<forall>g. g \<in> set (finished_gws idx) \<longleftrightarrow>
                  (\<exists>r \<in> set (rows ?m). gw_tag ?m r = g) \<and>
                  (\<forall>r \<in> set (rows ?m). gw_tag ?m r = g \<longrightarrow> to_bool (finished r))"
    by (elim exE conjE) (rule that, assumption+)
  have "2 \<notin> set (finished_gws idx)"
    using mem [rule_format, of 2] by (simp add: gw_tag_def to_bool_CBool)
  moreover have "idx = \<lparr>finished_gws = [1, 3], max_finished_gw = 3\<rparr>"
    using run ev by simp
  ultimately show ?thesis using ev by simp
qed

section \<open>Properties of the label builder\<close>

text \<open>
  Claim C3 (amended). For a frame with a \<^verbatim>\<open>gw\<close> column and a non-empty list of horizons,
  \<^verbatim>\<open>labelable_mask\<close> flags exactly the rows whose gameweek is at most
  \<open>max_finished_gw\<close> minus the largest horizon. With \<open>max_finished_gw = 10\<close> and
  horizons \<open>[1, 5]\<close> the bound is 5: a row at gameweek 5 is labelable and a row at
  gameweek 6 is not.
\<close>

theorem labelable_mask_spec:
  assumes "''gw'' \<in> set (columns df)" and "horizons \<noteq> []"
  shows "labelable_mask df max_finished horizons =
           Inr (map (\<lambda>r. gw r \<le> max_finished - Max (set horizons)) (rows df))"
  using assms by (simp add: labelable_mask_def fold_max_Max)

theorem labelable_mask_spec_witness:
  "''gw'' \<in> set (columns \<lparr>columns = [''player_id'', ''gw''],
      rows = [\<lparr>gw = 5, player_id = 1, num = (\<lambda>c. None)\<rparr>,
              \<lparr>gw = 6, player_id = 1, num = (\<lambda>c. None)\<rparr>]\<rparr>) \<and>
   [1, 5 :: int] \<noteq> [] \<and>
   labelable_mask \<lparr>columns = [''player_id'', ''gw''],
      rows = [\<lparr>gw = 5, player_id = 1, num = (\<lambda>c. None)\<rparr>,
              \<lparr>gw = 6, player_id = 1, num = (\<lambda>c. None)\<rparr>]\<rparr> 10 [1, 5]
   = Inr [True, False]"
  using labelable_mask_spec [of "\<lparr>columns = [''player_id'', ''gw''],
      rows = [\<lparr>gw = 5, player_id = 1, num = (\<lambda>c. None)\<rparr>,
              \<lparr>gw = 6, player_id = 1, num = (\<lambda>c. None)\<rparr>]\<rparr>" "[1, 5]" 10]
  by simp

text \<open>
  With \<open>max_finished_gw = 10\<close> and horizons \<open>[1, 5]\<close> a row at gameweek 6 is not
  labelable: its five-week window would end at gameweek 11.
\<close>

theorem labelable_mask_gw6_counterexample:
  "labelable_mask \<lparr>columns = [''player_id'', ''gw''],
      rows = [\<lparr>gw = 6, player_id = 1, num = (\<lambda>c. None)\<rparr>]\<rparr> 10 [1, 5] = Inr [False]"
  by (simp add: labelable_mask_def)

section \<open>Properties of the per-90 features\<close>

lemma per90_name_not_key: "per90_name c \<noteq> ''gw''" "per90_name c \<noteq> ''player_id''"
proof -
  have "last (per90_name c) = CHR ''0''" by (simp add: per90_name_def)
  then show "per90_name c \<noteq> ''gw''" "per90_name c \<noteq> ''player_id''" by auto
qed

lemma per90_name_inj: "per90_name c = per90_name d \<longleftrightarrow> c = d"
  by (simp add: per90_name_def)

lemma length_assign_col:
  "length s = length (rows df) \<Longrightarrow> length (rows (assign_col k s df)) = length (rows df)"
  by (simp add: assign_col_def)

lemma columns_assign_col: "set (columns (assign_col k s df)) = insert k (set (columns df))"
  by (auto simp: assign_col_def)

lemma keys_assign_col:
  "length s = length (rows df) \<Longrightarrow> i < length (rows df) \<Longrightarrow>
   player_id (rows (assign_col k s df) ! i) = player_id (rows df ! i) \<and>
   gw (rows (assign_col k s df) ! i) = gw (rows df ! i)"
  by (simp add: assign_col_def)

lemma col_val_assign_col:
  assumes "length s = length (rows df)" "i < length (rows df)" "k \<noteq> ''gw''" "k \<noteq> ''player_id''"
  shows "col_val (rows (assign_col k s df) ! i) c = (if c = k then s ! i else col_val (rows df ! i) c)"
  using assms by (simp add: assign_col_def col_val_def)

lemma length_per90_step:
  "length mins = length (rows df) \<Longrightarrow> length (rows (per90_step mins c df)) = length (rows df)"
  by (simp add: per90_step_def length_assign_col column_def)

lemma columns_per90_step: "set (columns df) \<subseteq> set (columns (per90_step mins c df))"
  by (auto simp: per90_step_def columns_assign_col)

lemma col_val_per90_step:
  assumes "length mins = length (rows df)" "i < length (rows df)"
  shows "col_val (rows (per90_step mins a df) ! i) c =
          (if a \<in> set (columns df) \<and> c = per90_name a
           then per90_value (col_val (rows df ! i) a) (mins ! i)
           else col_val (rows df ! i) c)"
  using assms
  by (simp add: per90_step_def col_val_assign_col per90_name_not_key column_def)

lemma fold_per90:
  assumes "\<forall>d\<in>set cols. per90_name d \<noteq> c" "c \<in> set (columns d0)"
    "length mins = length (rows d0)"
  shows "length (rows (fold (per90_step mins) cols d0)) = length (rows d0) \<and>
         c \<in> set (columns (fold (per90_step mins) cols d0)) \<and>
         (\<forall>i<length (rows d0).
            col_val (rows (fold (per90_step mins) cols d0) ! i) c = col_val (rows d0 ! i) c \<and>
            col_val (rows (fold (per90_step mins) cols d0) ! i) (per90_name c) =
              (if c \<in> set cols then per90_value (col_val (rows d0 ! i) c) (mins ! i)
               else col_val (rows d0 ! i) (per90_name c)))"
  using assms
proof (induction cols arbitrary: d0)
  case Nil
  then show ?case by simp
next
  case (Cons a cols)
  let ?d1 = "per90_step mins a d0"
  have len1: "length (rows ?d1) = length (rows d0)"
    using Cons.prems(3) by (rule length_per90_step)
  have c1: "c \<in> set (columns ?d1)" using Cons.prems(2) columns_per90_step by blast
  have ne: "per90_name a \<noteq> c" using Cons.prems(1) by simp
  have keep: "col_val (rows ?d1 ! i) c = col_val (rows d0 ! i) c" if "i < length (rows d0)" for i
    using that Cons.prems(3) ne by (auto simp: col_val_per90_step)
  have p1: "col_val (rows ?d1 ! i) (per90_name c) =
             (if a = c then per90_value (col_val (rows d0 ! i) c) (mins ! i)
              else col_val (rows d0 ! i) (per90_name c))" if "i < length (rows d0)" for i
    using that Cons.prems(2,3) by (auto simp: col_val_per90_step per90_name_inj)
  have IH: "length (rows (fold (per90_step mins) cols ?d1)) = length (rows ?d1) \<and>
         c \<in> set (columns (fold (per90_step mins) cols ?d1)) \<and>
         (\<forall>i<length (rows ?d1).
            col_val (rows (fold (per90_step mins) cols ?d1) ! i) c = col_val (rows ?d1 ! i) c \<and>
            col_val (rows (fold (per90_step mins) cols ?d1) ! i) (per90_name c) =
              (if c \<in> set cols then per90_value (col_val (rows ?d1 ! i) c) (mins ! i)
               else col_val (rows ?d1 ! i) (per90_name c)))"
    using Cons.prems(1,3) c1 len1 by (intro Cons.IH) simp_all
  show ?case
    using IH len1 keep p1 by (simp del: fold_simps add: fold_Cons) (metis)
qed

text \<open>
  Claim C4. For a frame with the minutes column, a listed column \<open>c\<close> of the frame
  (not itself the per-90 name of a listed column) and every row, the column
  \<open>c_per90\<close> that \<^verbatim>\<open>add_per90_features\<close> adds holds \<open>c / minutes * 90\<close>; where the
  minutes are 0 (or missing, or \<open>c\<close> is missing) it holds a missing value, which is
  neither zero nor infinite. With 45 minutes and a metric of 9 the value is 18.
\<close>

theorem add_per90_features_spec:
  assumes "minutes_col \<in> set (columns df)" and "c \<in> set cols" and "c \<in> set (columns df)"
      and "\<forall>d\<in>set cols. per90_name d \<noteq> c" and "i < length (rows df)"
  shows "col_val (rows (add_per90_features df cols minutes_col) ! i) (per90_name c) =
           (case col_val (rows df ! i) minutes_col of
              None \<Rightarrow> None
            | Some m \<Rightarrow>
                if m = 0 then None
                else (case col_val (rows df ! i) c of
                        None \<Rightarrow> None
                      | Some x \<Rightarrow> Some (x / m * 90)))"
proof -
  let ?mins = "map zero_to_na (column df minutes_col)"
  have len: "length ?mins = length (rows df)" by (simp add: column_def)
  have "col_val (rows (fold (per90_step ?mins) cols df) ! i) (per90_name c) =
          per90_value (col_val (rows df ! i) c) (?mins ! i)"
    using fold_per90 [OF assms(4) assms(3) len] assms(2,5) by simp
  moreover have "?mins ! i = zero_to_na (col_val (rows df ! i) minutes_col)"
    using assms(5) by (simp add: column_def)
  ultimately show ?thesis
    using assms(1)
    by (simp add: add_per90_features_def per90_value_def zero_to_na_def split: option.splits)
qed

theorem add_per90_features_spec_witness:
  "col_val (rows (add_per90_features
      \<lparr>columns = [''player_id'', ''gw'', ''minutes'', ''bps''],
       rows = [\<lparr>gw = 1, player_id = 1, num = (\<lambda>c. None)(''minutes'' := Some 45, ''bps'' := Some 9)\<rparr>,
               \<lparr>gw = 2, player_id = 1, num = (\<lambda>c. None)(''minutes'' := Some 0, ''bps'' := Some 9)\<rparr>]\<rparr>
      [''minutes'', ''bps''] ''minutes'') ! 0) (per90_name ''bps'') = Some 18 \<and>
   col_val (rows (add_per90_features
      \<lparr>columns = [''player_id'', ''gw'', ''minutes'', ''bps''],
       rows = [\<lparr>gw = 1, player_id = 1, num = (\<lambda>c. None)(''minutes'' := Some 45, ''bps'' := Some 9)\<rparr>,
               \<lparr>gw = 2, player_id = 1, num = (\<lambda>c. None)(''minutes'' := Some 0, ''bps'' := Some 9)\<rparr>]\<rparr>
      [''minutes'', ''bps''] ''minutes'') ! 1) (per90_name ''bps'') = None"
proof -
  let ?df = "\<lparr>columns = [''player_id'', ''gw'', ''minutes'', ''bps''],
       rows = [\<lparr>gw = 1, player_id = 1, num = (\<lambda>c. None)(''minutes'' := Some 45, ''bps'' := Some 9)\<rparr>,
               \<lparr>gw = 2, player_id = 1, num = (\<lambda>c. None)(''minutes'' := Some 0, ''bps'' := Some 9)\<rparr>]\<rparr>"
  have h1: "''minutes'' \<in> set (columns ?df)" and h2: "''bps'' \<in> set [''minutes'', ''bps'']"
    and h3: "''bps'' \<in> set (columns ?df)"
    and h4: "\<forall>d\<in>set [''minutes'', ''bps'']. per90_name d \<noteq> ''bps''"
    and h5: "0 < length (rows ?df)" and h6: "1 < length (rows ?df)"
    by (simp_all add: per90_name_def)
  show ?thesis
    using add_per90_features_spec [OF h1 h2 h3 h4 h5] add_per90_features_spec [OF h1 h2 h3 h4 h6]
    by (simp add: col_val_def)
qed

section \<open>Properties of the horizon labels\<close>

text \<open>
  Claim C1. The label \<open>next_h_total\<close> at gameweek \<open>g\<close> should be the sum of the source
  column over the gameweeks \<open>g+1 .. g+h\<close> of the same entity. The window of
  \<^verbatim>\<open>add_horizon_labels\<close> counts rows, not gameweeks: for an entity observed at
  gameweeks 1, 3 and 4 with points 2, 4 and 6, the label \<open>next_2_total\<close> at gameweek 1
  is 4 + 6 = 10, the sum over gameweeks 3 and 4, although gameweek 2 is absent and
  gameweek 4 lies outside \<open>2 .. 3\<close>.
\<close>

theorem add_horizon_labels_gap:
  "map_sum id (\<lambda>out. map (\<lambda>r. (gw r, col_val r ''points_next_2_total'')) (rows out))
     (add_horizon_labels
        \<lparr>columns = [''player_id'', ''gw'', ''event_points''],
         rows = [\<lparr>gw = 1, player_id = 7, num = (\<lambda>c. None)(''event_points'' := Some 2)\<rparr>,
                 \<lparr>gw = 3, player_id = 7, num = (\<lambda>c. None)(''event_points'' := Some 4)\<rparr>,
                 \<lparr>gw = 4, player_id = 7, num = (\<lambda>c. None)(''event_points'' := Some 6)\<rparr>]\<rparr>
        [2] [(''points'', ''event_points'')] True)
   = Inr [(1, Some 10), (3, None), (4, None)]"
  by code_simp

text \<open>
  At gameweek 1 the label is therefore neither 4, the points of gameweeks 2 to 3, nor
  missing.
\<close>

theorem add_horizon_labels_gap_witness:
  "map_sum id (\<lambda>out. map (\<lambda>r. (gw r, col_val r ''points_next_2_total'')) (rows out))
     (add_horizon_labels
        \<lparr>columns = [''player_id'', ''gw'', ''event_points''],
         rows = [\<lparr>gw = 1, player_id = 7, num = (\<lambda>c. None)(''event_points'' := Some 2)\<rparr>,
                 \<lparr>gw = 3, player_id = 7, num = (\<lambda>c. None)(''event_points'' := Some 4)\<rparr>,
                 \<lparr>gw = 4, player_id = 7, num = (\<lambda>c. None)(''event_points'' := Some 6)\<rparr>]\<rparr>
        [2] [(''points'', ''event_points'')] True)
   \<notin> {Inr [(1, Some 4), (3, None), (4, None)], Inr [(1, None), (3, None), (4, None)]}"
  using add_horizon_labels_gap by simp

text \<open>
  On the gap-free series of points \<open>[2, 4, 6, 8, 10]\<close> at gameweeks 1 to 5 the label
  \<open>next_2_total\<close> is 10 at gameweek 1 and missing at gameweek 4.
\<close>

lemma add_horizon_labels_example:
  "map_sum id (\<lambda>out. map (\<lambda>r. (gw r, col_val r ''points_next_2_total'',
                                  col_val r ''points_next_2_per_week'')) (rows out))
     (add_horizon_labels
        \<lparr>columns = [''player_id'', ''gw'', ''event_points''],
         rows = [\<lparr>gw = 1, player_id = 7, num = (\<lambda>c. None)(''event_points'' := Some 2)\<rparr>,
                 \<lparr>gw = 2, player_id = 7, num = (\<lambda>c. None)(''event_points'' := Some 4)\<rparr>,
                 \<lparr>gw = 3, player_id = 7, num = (\<lambda>c. None)(''event_points'' := Some 6)\<rparr>,
                 \<lparr>gw = 4, player_id = 7, num = (\<lambda>c. None)(''event_points'' := Some 8)\<rparr>,
                 \<lparr>gw = 5, player_id = 7, num = (\<lambda>c. None)(''event_points'' := Some 10)\<rparr>]\<rparr>
        [2] [(''points'', ''event_points'')] True)
   = Inr [(1, Some 10, Some 5), (2, Some 14, Some 7), (3, Some 18, Some 9),
          (4, None, None), (5, None, None)]"
  by code_simp

section \<open>Properties of the table loader\<close>

lemma load_loop_none_lenient:
  "\<forall>d\<in>set ds. \<not> has_file filename (snd (snd d)) \<Longrightarrow>
   load_loop filename add_gw True ds frames fc = Inr (frames, fc)"
  by (induction ds arbitrary: frames fc) (auto simp: has_file_def)

lemma load_loop_strict_raises:
  "\<exists>d\<in>set ds. \<not> has_file filename (snd (snd d)) \<Longrightarrow>
   load_loop filename add_gw False ds frames fc = Inl FileNotFoundError"
proof (induction ds arbitrary: frames fc)
  case Nil
  then show ?case by simp
next
  case (Cons d ds)
  obtain n g p where d: "d = (n, g, p)" by (cases d)
  show ?case
  proof (cases "files p filename")
    case None
    then show ?thesis by (simp add: d)
  next
    case (Some df)
    then have "\<exists>d\<in>set ds. \<not> has_file filename (snd (snd d))"
      using Cons.prems by (auto simp: d has_file_def)
    then show ?thesis using Some Cons.IH by (simp add: d Let_def)
  qed
qed

lemma load_loop_skips:
  "load_loop filename add_gw True ds frames fc =
   load_loop filename add_gw False (filter (\<lambda>d. has_file filename (snd (snd d))) ds) frames fc"
proof (induction ds arbitrary: frames fc)
  case Nil
  then show ?case by simp
next
  case (Cons d ds)
  obtain n g p where d: "d = (n, g, p)" by (cases d)
  show ?case
    by (cases "files p filename") (simp_all add: d has_file_def Cons.IH Let_def)
qed

lemma load_loop_all_present:
  "\<forall>d\<in>set ds. has_file filename (snd (snd d)) \<Longrightarrow>
   load_loop filename add_gw allow_missing ds frames fc =
     Inr (frames @ map (read_frame filename add_gw) ds,
          (case fc of
             Some cs \<Rightarrow> Some cs
           | None \<Rightarrow> (case ds of [] \<Rightarrow> None
                      | d # _ \<Rightarrow> Some (columns (the (files (snd (snd d)) filename))))))"
proof (induction ds arbitrary: frames fc)
  case Nil
  then show ?case by (simp split: option.splits)
next
  case (Cons d ds)
  obtain n g p where d: "d = (n, g, p)" by (cases d)
  from Cons.prems obtain df where df: "files p filename = Some df"
    by (auto simp: d has_file_def)
  have rest: "\<forall>d\<in>set ds. has_file filename (snd (snd d))" using Cons.prems by simp
  show ?case
    using df Cons.IH [OF rest]
    by (simp add: d Let_def read_frame_def split: option.splits)
qed

lemma load_loop_lenient:
  "load_loop filename add_gw True ds [] None =
     (let present = filter (\<lambda>d. has_file filename (snd (snd d))) ds
      in Inr (map (read_frame filename add_gw) present,
              (case present of [] \<Rightarrow> None
               | d # _ \<Rightarrow> Some (columns (the (files (snd (snd d)) filename))))))"
  unfolding load_loop_skips [of filename add_gw ds] Let_def
  by (subst load_loop_all_present) simp_all

lemma empty_read_frame:
  "rows (the (files (snd (snd d)) filename)) = [] \<Longrightarrow> empty (read_frame filename add_gw d)"
  by (simp add: read_frame_def empty_def insert_gw_def Let_def)


lemma concat_gw_dir_filter:
  "concat (map (gw_dir_of py_int) (filter P entries)) =
   filter (\<lambda>d. P (snd (snd d))) (concat (map (gw_dir_of py_int) entries))"
proof (induction entries)
  case Nil
  then show ?case by simp
next
  case (Cons p entries)
  have "filter (\<lambda>d. P (snd (snd d))) (gw_dir_of py_int p) = (if P p then gw_dir_of py_int p else [])"
  proof (cases "is_dir p \<and> take 2 (lower (name p)) = ''gw''")
    case True
    then show ?thesis
      unfolding gw_dir_of_def by (cases "py_int (drop 2 (name p))") simp_all
  next
    case False
    then have "gw_dir_of py_int p = []" unfolding gw_dir_of_def by (rule if_not_P)
    then show ?thesis by simp
  qed
  then show ?case using Cons.IH by simp
qed

lemma list_gw_dirs_alt:
  "list_gw_dirs py_int (Some entries) =
   Inr (sort_key (\<lambda>(n, gw_num, p). gw_num) (concat (map (gw_dir_of py_int) entries)))"
  by (simp add: list_gw_dirs_def gw_dir_of_def [abs_def])

lemma list_gw_dirs_filter:
  "list_gw_dirs py_int (Some (filter P entries)) =
   map_sum id (filter (\<lambda>d. P (snd (snd d)))) (list_gw_dirs py_int (Some entries))"
  by (simp add: list_gw_dirs_alt concat_gw_dir_filter filter_sort)


lemma load_all_gws_lenient:
  assumes "list_gw_dirs py_int by_gameweek_dir = Inr dirs"
  shows "load_all_gws py_int by_gameweek_dir filename add_gw True =
     (let present = filter (\<lambda>d. has_file filename (snd (snd d))) dirs;
          frames = map (read_frame filename add_gw) present
      in if frames = [] then Inr \<lparr>columns = [], rows = []\<rparr>
         else if filter (\<lambda>f. \<not> empty f) frames = []
              then Inr \<lparr>columns = columns (the (files (snd (snd (hd present))) filename)), rows = []\<rparr>
              else Inr (pd_concat (filter (\<lambda>f. \<not> empty f) frames)))"
proof (cases "filter (\<lambda>d. has_file filename (snd (snd d))) dirs")
  case Nil
  then show ?thesis
    by (simp add: load_all_gws_def assms load_loop_lenient)
next
  case (Cons d ds)
  then show ?thesis
    by (simp add: load_all_gws_def assms load_loop_lenient Let_def)
qed

text \<open>
  Claim C9. Let the root directory exist and list the gameweek directories \<open>dirs\<close>.
  In lenient mode \<^verbatim>\<open>load_all_gws\<close> returns the empty table when no gameweek directory
  holds the file, and never raises; a directory without the file is skipped, that is,
  the result is the one of strict mode on the root without the directories that lack
  the file. In strict mode one directory without the file raises
  \<^verbatim>\<open>FileNotFoundError\<close>. When some file was read and every file read has no rows, the
  result is the table without rows that has the column headers of the first file read.
\<close>

theorem load_all_gws_spec:
  assumes root: "list_gw_dirs py_int by_gameweek_dir = Inr dirs"
  shows "((\<forall>d\<in>set dirs. files (snd (snd d)) filename = None) \<longrightarrow>
            load_all_gws py_int by_gameweek_dir filename add_gw True = Inr \<lparr>columns = [], rows = []\<rparr>) \<and>
         ((\<exists>d\<in>set dirs. files (snd (snd d)) filename = None) \<longrightarrow>
            load_all_gws py_int by_gameweek_dir filename add_gw False = Inl FileNotFoundError) \<and>
         (\<exists>df. load_all_gws py_int by_gameweek_dir filename add_gw True = Inr df) \<and>
         (\<forall>entries. by_gameweek_dir = Some entries \<longrightarrow>
            load_all_gws py_int (Some entries) filename add_gw True =
            load_all_gws py_int (Some (filter (\<lambda>p. files p filename \<noteq> None) entries)) filename add_gw False) \<and>
         (\<forall>d0 ds. filter (\<lambda>d. files (snd (snd d)) filename \<noteq> None) dirs = d0 # ds \<and>
                  (\<forall>d\<in>set (d0 # ds). rows (the (files (snd (snd d)) filename)) = []) \<longrightarrow>
            load_all_gws py_int by_gameweek_dir filename add_gw True =
              Inr \<lparr>columns = columns (the (files (snd (snd d0)) filename)), rows = []\<rparr>)"
proof (intro conjI impI allI)
  assume "\<forall>d\<in>set dirs. files (snd (snd d)) filename = None"
  then have "filter (\<lambda>d. has_file filename (snd (snd d))) dirs = []"
    by (simp add: has_file_def)
  then show "load_all_gws py_int by_gameweek_dir filename add_gw True = Inr \<lparr>columns = [], rows = []\<rparr>"
    by (simp add: load_all_gws_lenient [OF root])
next
  assume "\<exists>d\<in>set dirs. files (snd (snd d)) filename = None"
  then have "\<exists>d\<in>set dirs. \<not> has_file filename (snd (snd d))" by (simp add: has_file_def)
  then show "load_all_gws py_int by_gameweek_dir filename add_gw False = Inl FileNotFoundError"
    by (simp add: load_all_gws_def root load_loop_strict_raises)
next
  show "\<exists>df. load_all_gws py_int by_gameweek_dir filename add_gw True = Inr df"
    by (simp add: load_all_gws_lenient [OF root] Let_def)
next
  fix entries assume e: "by_gameweek_dir = Some entries"
  have l: "list_gw_dirs py_int (Some entries) = Inr dirs" using root e by simp
  have r: "list_gw_dirs py_int (Some (filter (\<lambda>p. files p filename \<noteq> None) entries)) =
           Inr (filter (\<lambda>d. has_file filename (snd (snd d))) dirs)"
    by (simp add: list_gw_dirs_filter l has_file_def)
  show "load_all_gws py_int (Some entries) filename add_gw True =
        load_all_gws py_int (Some (filter (\<lambda>p. files p filename \<noteq> None) entries)) filename add_gw False"
    unfolding load_all_gws_def l r by (simp add: load_loop_skips)
next
  fix d0 ds
  assume a: "filter (\<lambda>d. files (snd (snd d)) filename \<noteq> None) dirs = d0 # ds \<and>
             (\<forall>d\<in>set (d0 # ds). rows (the (files (snd (snd d)) filename)) = [])"
  then have p: "filter (\<lambda>d. has_file filename (snd (snd d))) dirs = d0 # ds"
    by (simp add: has_file_def)
  have "empty (read_frame filename add_gw d)" if "d \<in> set (d0 # ds)" for d
    using a that by (intro empty_read_frame) blast
  then have "\<forall>f \<in> set (map (read_frame filename add_gw) (d0 # ds)). empty f"
    unfolding set_map by blast
  then have "filter (\<lambda>f. \<not> empty f) (map (read_frame filename add_gw) (d0 # ds)) = []"
    by (simp add: filter_empty_conv)
  then show "load_all_gws py_int by_gameweek_dir filename add_gw True =
              Inr \<lparr>columns = columns (the (files (snd (snd d0)) filename)), rows = []\<rparr>"
    by (simp add: load_all_gws_lenient [OF root] p Let_def)
qed


theorem load_all_gws_spec_witness:
  "list_gw_dirs (\<lambda>s. if s = ''1'' then Some 1 else if s = ''2'' then Some 2 else None)
     (Some [\<lparr>name = ''gw2'', is_dir = True, files = (\<lambda>f. None)\<rparr>,
            \<lparr>name = ''notes'', is_dir = True, files = (\<lambda>f. None)\<rparr>,
            \<lparr>name = ''GW1'', is_dir = True,
               files = (\<lambda>f. None)(''teams.csv'' := Some \<lparr>columns = [''id'', ''elo''], rows = []\<rparr>)\<rparr>])
     = Inr [(''GW1'', 1, \<lparr>name = ''GW1'', is_dir = True,
               files = (\<lambda>f. None)(''teams.csv'' := Some \<lparr>columns = [''id'', ''elo''], rows = []\<rparr>)\<rparr>),
            (''gw2'', 2, \<lparr>name = ''gw2'', is_dir = True, files = (\<lambda>f. None)\<rparr>)] \<and>
   load_all_gws (\<lambda>s. if s = ''1'' then Some 1 else if s = ''2'' then Some 2 else None)
     (Some [\<lparr>name = ''gw2'', is_dir = True, files = (\<lambda>f. None)\<rparr>,
            \<lparr>name = ''notes'', is_dir = True, files = (\<lambda>f. None)\<rparr>,
            \<lparr>name = ''GW1'', is_dir = True,
               files = (\<lambda>f. None)(''teams.csv'' := Some \<lparr>columns = [''id'', ''elo''], rows = []\<rparr>)\<rparr>])
     ''teams.csv'' True False = Inl FileNotFoundError \<and>
   load_all_gws (\<lambda>s. if s = ''1'' then Some 1 else if s = ''2'' then Some 2 else None)
     (Some [\<lparr>name = ''gw2'', is_dir = True, files = (\<lambda>f. None)\<rparr>,
            \<lparr>name = ''notes'', is_dir = True, files = (\<lambda>f. None)\<rparr>,
            \<lparr>name = ''GW1'', is_dir = True,
               files = (\<lambda>f. None)(''teams.csv'' := Some \<lparr>columns = [''id'', ''elo''], rows = []\<rparr>)\<rparr>])
     ''teams.csv'' True True = Inr \<lparr>columns = [''id'', ''elo''], rows = []\<rparr>"
proof -
  let ?py = "\<lambda>s. if s = ''1'' then Some (1::int) else if s = ''2'' then Some 2 else None"
  let ?e1 = "\<lparr>name = ''GW1'', is_dir = True,
               files = (\<lambda>f. None)(''teams.csv'' := Some \<lparr>columns = [''id'', ''elo''], rows = ([] :: csv_row list)\<rparr>)\<rparr>"
  let ?e2 = "\<lparr>name = ''gw2'', is_dir = True, files = (\<lambda>f. None :: csv_row frame option)\<rparr>"
  let ?e3 = "\<lparr>name = ''notes'', is_dir = True, files = (\<lambda>f. None :: csv_row frame option)\<rparr>"
  let ?root = "Some [?e2, ?e3, ?e1]"
  let ?dirs = "[(''GW1'', 1, ?e1), (''gw2'', 2, ?e2)]"
  have h: "list_gw_dirs ?py ?root = Inr ?dirs"
    by (simp add: list_gw_dirs_def lower_def lower_char_def)
  note spec = load_all_gws_spec [OF h, of "''teams.csv''" True]
  have strict: "load_all_gws ?py ?root ''teams.csv'' True False = Inl FileNotFoundError"
    using spec [THEN conjunct2, THEN conjunct1] by simp
  have "filter (\<lambda>d. files (snd (snd d)) ''teams.csv'' \<noteq> None) ?dirs = (''GW1'', 1, ?e1) # [] \<and>
        (\<forall>d\<in>set ((''GW1'', 1, ?e1) # []). rows (the (files (snd (snd d)) ''teams.csv'')) = [])"
    by simp
  then have lenient: "load_all_gws ?py ?root ''teams.csv'' True True =
      Inr \<lparr>columns = columns (the (files (snd (snd (''GW1'', 1::int, ?e1))) ''teams.csv'')), rows = []\<rparr>"
    using spec [THEN conjunct2, THEN conjunct2, THEN conjunct2, THEN conjunct2, rule_format,
                of "(''GW1'', 1, ?e1)" "[]"] by blast
  show ?thesis using h strict lenient by simp
qed

section \<open>Properties of the fixture-difficulty builder\<close>

lemma fold_min_Min: "xs \<noteq> [] \<Longrightarrow> fold min (map f (tl xs)) (f (hd xs)) = Min (f ` set xs)"
  by (cases xs) (simp_all add: Min.set_eq_fold [symmetric])

lemma fold_max_Max_map: "xs \<noteq> [] \<Longrightarrow> fold max (map f (tl xs)) (f (hd xs)) = Max (f ` set xs)"
  by (cases xs) (simp_all add: Max.set_eq_fold [symmetric])

lemma merge_left_keys:
  assumes "\<And>l d. k (pair l d) = k l"
  shows "k ` set (merge_left lkey rkey pair ls rs) = k ` set ls"
proof -
  have one: "k ` set (case filter (\<lambda>r. rkey r = lkey l) rs of
                    [] \<Rightarrow> [pair l None] | ms \<Rightarrow> map (\<lambda>r. pair l (Some r)) ms) = {k l}" for l
    by (cases "filter (\<lambda>r. rkey r = lkey l) rs") (auto simp: assms)
  have "k ` set (merge_left lkey rkey pair ls rs) =
        (\<Union>l\<in>set ls. k ` set (case filter (\<lambda>r. rkey r = lkey l) rs of
                    [] \<Rightarrow> [pair l None] | ms \<Rightarrow> map (\<lambda>r. pair l (Some r)) ms))"
    by (auto simp: merge_left_def)
  also have "\<dots> = (\<Union>l\<in>set ls. {k l})" by (simp only: one)
  also have "\<dots> = k ` set ls" by auto
  finally show ?thesis .
qed

lemma filter_distinct_key:
  "distinct (map rkey rs) \<Longrightarrow>
   filter (\<lambda>r. rkey r = x) rs = (case find (\<lambda>r. rkey r = x) rs of None \<Rightarrow> [] | Some r \<Rightarrow> [r])"
proof (induction rs)
  case Nil
  then show ?case by simp
next
  case (Cons a rs)
  show ?case
  proof (cases "rkey a = x")
    case True
    have "rkey a \<notin> rkey ` set rs" using Cons.prems by simp
    then have "\<forall>r\<in>set rs. rkey r \<noteq> x" using True by blast
    then have "filter (\<lambda>r. rkey r = x) rs = []"
      by (simp add: filter_empty_conv)
    then show ?thesis using True by simp
  next
    case False
    then show ?thesis using Cons by simp
  qed
qed

lemma merge_left_distinct:
  assumes "distinct (map rkey rs)"
  shows "merge_left lkey rkey pair ls rs = map (\<lambda>l. pair l (find (\<lambda>r. rkey r = lkey l) rs)) ls"
proof -
  have "(case filter (\<lambda>r. rkey r = lkey l) rs of
           [] \<Rightarrow> [pair l None] | ms \<Rightarrow> map (\<lambda>r. pair l (Some r)) ms) =
        [pair l (find (\<lambda>r. rkey r = lkey l) rs)]" for l
    by (simp add: filter_distinct_key [OF assms] split: option.splits)
  then show ?thesis by (simp add: merge_left_def)
qed

lemma tkey_merge_opp: "tkey ` set (merge_opp_strength d tfx) = tkey ` set tfx"
  unfolding merge_opp_strength_def by (rule merge_left_keys) (simp add: tkey_def)

lemma tkey_merge_elo: "tkey ` set (merge_team_elo d tfx) = tkey ` set tfx"
  unfolding merge_team_elo_def by (rule merge_left_keys) (simp add: tkey_def)

lemma tkey_team_fx_rows_set:
  "tkey ` set (team_fx_rows fx teams_dim) = tkey ` set (map home_row fx @ map away_row fx)"
proof -
  let ?t0 = "map home_row fx @ map away_row fx"
  let ?t1 = "if has_strength teams_dim
             then merge_opp_strength (rows (the (usable_dim teams_dim))) ?t0 else ?t0"
  let ?t2 = "if has_elo teams_dim
             then merge_team_elo (rows (the (usable_dim teams_dim))) ?t1 else ?t1"
  have s1: "tkey ` set ?t1 = tkey ` set ?t0"
    by (cases "has_strength teams_dim") (simp_all only: if_True if_False tkey_merge_opp)
  have s2: "tkey ` set ?t2 = tkey ` set ?t1"
    by (cases "has_elo teams_dim") (simp_all only: if_True if_False tkey_merge_elo)
  have "team_fx_rows fx teams_dim = map (\<lambda>r. r\<lparr>elo_delta := sub_opt (team_elo r) (opp_elo r)\<rparr>) ?t2"
    by (simp only: team_fx_rows_def Let_def)
  then have "tkey ` set (team_fx_rows fx teams_dim) = tkey ` set ?t2"
    by (simp add: image_image tkey_def)
  then show ?thesis using s1 s2 by simp
qed


lemma count_distinct:
  "distinct xs \<Longrightarrow> length (filter (\<lambda>y. y = x) xs) = (if x \<in> set xs then 1 else 0)"
  by (induction xs) auto

lemma grid_count:
  assumes kt: "\<And>t' g'. kt (mk t' g') = Some t'" and kg: "\<And>t' g'. kg (mk t' g') = g'"
      and dg: "distinct gs"
  shows "distinct ts \<Longrightarrow>
         length (filter (\<lambda>r. kt r = Some t \<and> kg r = g)
                   (concat (map (\<lambda>t'. map (\<lambda>g'. mk t' g') gs) ts))) =
         (if t \<in> set ts \<and> g \<in> set gs then 1 else (0::nat))"
proof (induction ts)
  case Nil
  then show ?case by simp
next
  case (Cons a ts)
  have inner: "length (filter (\<lambda>r. kt r = Some t \<and> kg r = g) (map (\<lambda>g'. mk a g') gs)) =
               (if a = t \<and> g \<in> set gs then 1 else 0)"
  proof (cases "a = t")
    case True
    then have "filter (\<lambda>r. kt r = Some t \<and> kg r = g) (map (\<lambda>g'. mk a g') gs) =
               map (\<lambda>g'. mk a g') (filter (\<lambda>y. y = g) gs)"
      by (simp add: filter_map comp_def kt kg)
    then show ?thesis using True count_distinct [OF dg, of g] by simp
  next
    case False
    then have "filter (\<lambda>r. kt r = Some t \<and> kg r = g) (map (\<lambda>g'. mk a g') gs) = []"
      by (simp add: filter_empty_conv kt)
    then show ?thesis using False by simp
  qed
  have "a \<notin> set ts" and "distinct ts" using Cons.prems by simp_all
  then show ?case using Cons.IH inner by auto
qed

lemma difficulty_rows_count:
  assumes ne: "tfx \<noteq> []"
  shows "length (filter (\<lambda>r. team_id r = Some t \<and> gw r = g) (difficulty_rows ws tfx hs)) =
         (if (\<exists>r\<in>set tfx. team_id r = Some t) \<and> (\<exists>r\<in>set tfx. gw r \<le> g) \<and>
             (\<exists>r\<in>set tfx. g \<le> gw r) then 1 else 0)"
proof -
  let ?teams = "sort (remdups (concat (map (\<lambda>r. case team_id r of None \<Rightarrow> [] | Some t \<Rightarrow> [t]) tfx)))"
  let ?mn = "Min (gw ` set tfx)" and ?mx = "Max (gw ` set tfx)"
  let ?mk = "\<lambda>t current_gw. \<lparr>gw = current_gw, team_id = Some t,
                    feats = map (\<lambda>h. (h, horizon_row ws (upcoming tfx t current_gw h)))
                                (first_occurrences hs)\<rparr>"
  have eq: "difficulty_rows ws tfx hs = concat (map (\<lambda>t. map (\<lambda>g. ?mk t g) [?mn..?mx]) ?teams)"
    unfolding difficulty_rows_def Let_def
    by (simp only: fold_min_Min [OF ne] fold_max_Max_map [OF ne])
  have dt: "distinct ?teams" by simp
  have dg: "distinct [?mn..?mx]" by simp
  have t_in: "t \<in> set ?teams \<longleftrightarrow> (\<exists>r\<in>set tfx. team_id r = Some t)"
    by (force split: option.splits)
  have fin: "finite (gw ` set tfx)" and nem: "gw ` set tfx \<noteq> {}" using ne by simp_all
  have g_in: "g \<in> set [?mn..?mx] \<longleftrightarrow> (\<exists>r\<in>set tfx. gw r \<le> g) \<and> (\<exists>r\<in>set tfx. g \<le> gw r)"
    using Min_le_iff [OF fin nem, of g] Max_ge_iff [OF fin nem, of g] by auto
  have "length (filter (\<lambda>r. team_id r = Some t \<and> gw r = g)
                   (concat (map (\<lambda>t'. map (\<lambda>g'. ?mk t' g') [?mn..?mx]) ?teams))) =
         (if t \<in> set ?teams \<and> g \<in> set [?mn..?mx] then 1 else (0::nat))"
    by (rule grid_count [OF _ _ dg dt]) simp_all
  then show ?thesis unfolding eq t_in g_in .
qed

lemma in_grid:
  "r \<in> set (concat (map (\<lambda>t. map (\<lambda>g. mk t g) gs) ts)) \<Longrightarrow> \<exists>t\<in>set ts. \<exists>g\<in>set gs. r = mk t g"
  by auto

lemma difficulty_rows_member:
  assumes ne: "tfx \<noteq> []" and r: "r \<in> set (difficulty_rows ws tfx hs)"
  shows "\<exists>t. team_id r = Some t \<and> (\<exists>x\<in>set tfx. team_id x = Some t) \<and>
             (\<exists>x\<in>set tfx. gw x \<le> gw r) \<and> (\<exists>x\<in>set tfx. gw r \<le> gw x) \<and>
             feats r = map (\<lambda>h. (h, horizon_row ws (upcoming tfx t (gw r) h))) (first_occurrences hs)"
proof -
  let ?teams = "sort (remdups (concat (map (\<lambda>r. case team_id r of None \<Rightarrow> [] | Some t \<Rightarrow> [t]) tfx)))"
  let ?mn = "Min (gw ` set tfx)" and ?mx = "Max (gw ` set tfx)"
  let ?mk = "\<lambda>t current_gw. \<lparr>gw = current_gw, team_id = Some t,
                    feats = map (\<lambda>h. (h, horizon_row ws (upcoming tfx t current_gw h)))
                                (first_occurrences hs)\<rparr>"
  have eq: "difficulty_rows ws tfx hs = concat (map (\<lambda>t. map (\<lambda>g. ?mk t g) [?mn..?mx]) ?teams)"
    unfolding difficulty_rows_def Let_def
    by (simp only: fold_min_Min [OF ne] fold_max_Max_map [OF ne])
  from r have "r \<in> set (concat (map (\<lambda>t. map (\<lambda>g. ?mk t g) [?mn..?mx]) ?teams))"
    unfolding eq .
  from in_grid [OF this]
  obtain t g where t: "t \<in> set ?teams" and g: "g \<in> set [?mn..?mx]" and rr: "r = ?mk t g"
    by blast
  have t_in: "\<exists>x\<in>set tfx. team_id x = Some t"
    using t by (force split: option.splits)
  have fin: "finite (gw ` set tfx)" and nem: "gw ` set tfx \<noteq> {}" using ne by simp_all
  have g_in: "(\<exists>x\<in>set tfx. gw x \<le> g) \<and> (\<exists>x\<in>set tfx. g \<le> gw x)"
    using g Min_le_iff [OF fin nem, of g] Max_ge_iff [OF fin nem, of g] by auto
  show ?thesis using t_in g_in rr by simp
qed


lemma cols_nonempty:
  assumes "set required_fixture_columns \<subseteq> set (columns (ensure_gw_col fixtures))"
  shows "columns fixtures \<noteq> []"
proof
  assume "columns fixtures = []"
  then have "columns (ensure_gw_col fixtures) = []" by (simp add: ensure_gw_col_def)
  then show False using assms by (simp add: required_fixture_columns_def)
qed

lemma rows_ensure_empty: "rows (ensure_gw_col fixtures) = [] \<longleftrightarrow> rows fixtures = []"
  by (simp add: ensure_gw_col_def)

lemma build_rows:
  assumes cols: "set required_fixture_columns \<subseteq> set (columns (ensure_gw_col fixtures))"
      and ne: "rows fixtures \<noteq> []"
  shows "\<exists>cs. build_team_fixture_difficulty fixtures teams_dim horizons =
           Inr \<lparr>columns = cs,
                rows = difficulty_rows (has_strength teams_dim)
                         (team_fx_rows (rows (ensure_gw_col fixtures)) teams_dim) horizons\<rparr>"
proof -
  have e: "\<not> empty fixtures" using cols_nonempty [OF cols] ne by (simp add: empty_def)
  have m: "filter (\<lambda>c. c \<notin> set (columns (ensure_gw_col fixtures))) required_fixture_columns = []"
    using cols by (auto simp: filter_empty_conv)
  show ?thesis
    unfolding build_team_fixture_difficulty_def Let_def using e m by simp
qed

lemma build_empty:
  assumes cols: "set required_fixture_columns \<subseteq> set (columns (ensure_gw_col fixtures))"
      and e: "rows fixtures = []"
  shows "build_team_fixture_difficulty fixtures teams_dim horizons = Inr \<lparr>columns = [], rows = []\<rparr>"
  using e by (simp add: build_team_fixture_difficulty_def empty_def)

lemma tfx_nonempty: "fx \<noteq> [] \<Longrightarrow> team_fx_rows fx teams_dim \<noteq> []"
proof
  assume a: "fx \<noteq> []" and b: "team_fx_rows fx teams_dim = []"
  have "tkey ` set (team_fx_rows fx teams_dim) = tkey ` set (map home_row fx @ map away_row fx)"
    by (rule tkey_team_fx_rows_set)
  then show False using a b by simp
qed

lemma tkey_sides:
  "tkey ` set (map home_row fx @ map away_row fx) =
   (\<lambda>f. (home_team f, gw f)) ` set fx \<union> (\<lambda>f. (away_team f, gw f)) ` set fx"
  by (simp add: image_Un image_image tkey_def home_row_def away_row_def)

lemma tfx_team_iff:
  "(\<exists>r\<in>set (team_fx_rows fx teams_dim). team_id r = Some t) \<longleftrightarrow>
   (\<exists>f\<in>set fx. home_team f = Some t \<or> away_team f = Some t)"
proof -
  have "(\<exists>r\<in>set (team_fx_rows fx teams_dim). team_id r = Some t) \<longleftrightarrow>
        (\<exists>k\<in>tkey ` set (team_fx_rows fx teams_dim). fst k = Some t)"
    by (simp add: tkey_def)
  also have "\<dots> \<longleftrightarrow> (\<exists>k\<in>(\<lambda>f. (home_team f, gw f)) ` set fx \<union> (\<lambda>f. (away_team f, gw f)) ` set fx.
                        fst k = Some t)"
    by (simp only: tkey_team_fx_rows_set tkey_sides)
  also have "\<dots> \<longleftrightarrow> (\<exists>f\<in>set fx. home_team f = Some t \<or> away_team f = Some t)"
    by force
  finally show ?thesis .
qed

lemma tfx_gw_iff:
  "(\<exists>r\<in>set (team_fx_rows fx teams_dim). P (gw r)) \<longleftrightarrow> (\<exists>f\<in>set fx. P (gw f))"
proof -
  have "(\<exists>r\<in>set (team_fx_rows fx teams_dim). P (gw r)) \<longleftrightarrow>
        (\<exists>k\<in>tkey ` set (team_fx_rows fx teams_dim). P (snd k))"
    by (simp add: tkey_def)
  also have "\<dots> \<longleftrightarrow> (\<exists>k\<in>(\<lambda>f. (home_team f, gw f)) ` set fx \<union> (\<lambda>f. (away_team f, gw f)) ` set fx.
                        P (snd k))"
    by (simp only: tkey_team_fx_rows_set tkey_sides)
  also have "\<dots> \<longleftrightarrow> (\<exists>f\<in>set fx. P (gw f))"
    by force
  finally show ?thesis .
qed

lemma tkey_merge_opp_distinct:
  "distinct (map id' d) \<Longrightarrow> map tkey (merge_opp_strength d tfx) = map tkey tfx"
  by (simp add: merge_opp_strength_def merge_left_distinct tkey_def comp_def)

lemma tkey_merge_elo_distinct:
  "distinct (map id' d) \<Longrightarrow> map tkey (merge_team_elo d tfx) = map tkey tfx"
  by (simp add: merge_team_elo_def merge_left_distinct tkey_def comp_def)

lemma usable_dim_Some: "usable_dim teams_dim = Some d \<Longrightarrow> teams_dim = Some d"
  by (auto simp: usable_dim_def split: option.splits if_splits)

lemma tkey_team_fx_rows_distinct:
  assumes uniq: "\<forall>d. teams_dim = Some d \<longrightarrow> distinct (map id' (rows d))"
  shows "map tkey (team_fx_rows fx teams_dim) =
         map (\<lambda>f. (home_team f, gw f)) fx @ map (\<lambda>f. (away_team f, gw f)) fx"
proof -
  let ?t0 = "map home_row fx @ map away_row fx"
  let ?t1 = "if has_strength teams_dim
             then merge_opp_strength (rows (the (usable_dim teams_dim))) ?t0 else ?t0"
  let ?t2 = "if has_elo teams_dim
             then merge_team_elo (rows (the (usable_dim teams_dim))) ?t1 else ?t1"
  have d: "distinct (map id' (rows (the (usable_dim teams_dim))))"
    if "has_strength teams_dim \<or> has_elo teams_dim"
  proof -
    from that obtain dm where "usable_dim teams_dim = Some dm"
      by (auto simp: has_strength_def has_elo_def split: option.splits)
    then show ?thesis using uniq usable_dim_Some by fastforce
  qed
  have s1: "map tkey ?t1 = map tkey ?t0"
    using d by (cases "has_strength teams_dim") (simp_all only: if_True if_False tkey_merge_opp_distinct simp_thms)
  have s2: "map tkey ?t2 = map tkey ?t1"
    using d by (cases "has_elo teams_dim") (simp_all only: if_True if_False tkey_merge_elo_distinct simp_thms)
  have "team_fx_rows fx teams_dim = map (\<lambda>r. r\<lparr>elo_delta := sub_opt (team_elo r) (opp_elo r)\<rparr>) ?t2"
    by (simp only: team_fx_rows_def Let_def)
  then have "map tkey (team_fx_rows fx teams_dim) = map tkey ?t2"
    by (simp add: tkey_def comp_def)
  also have "\<dots> = map tkey ?t0" using s1 s2 by simp
  also have "\<dots> = map (\<lambda>f. (home_team f, gw f)) fx @ map (\<lambda>f. (away_team f, gw f)) fx"
    by (simp add: tkey_def home_row_def away_row_def comp_def)
  finally show ?thesis .
qed

lemma length_upcoming:
  "length (upcoming tfx t g h) =
   length (filter (\<lambda>k. fst k = Some t \<and> g < snd k \<and> snd k \<le> g + h) (map tkey tfx))"
proof -
  have "upcoming tfx t g h = filter (\<lambda>r. team_id r = Some t \<and> g < gw r \<and> gw r \<le> g + h) tfx"
    by (auto simp: upcoming_def intro: filter_cong)
  then show ?thesis by (simp add: filter_map comp_def tkey_def)
qed

lemma fixture_count_horizon_row: "fixture_count (horizon_row ws up) = length up"
  by (simp add: horizon_row_def Let_def)

lemma horizon_row_zero:
  "fixture_count (horizon_row ws up) = 0 \<Longrightarrow>
   home_share (horizon_row ws up) = None \<and> opp_elo_avg (horizon_row ws up) = None \<and>
   opp_strength_avg (horizon_row ws up) = None \<and> elo_delta_avg (horizon_row ws up) = None"
  by (simp add: horizon_row_def Let_def split: if_splits)

lemma map_of_tabulate: "h \<in> set hs \<Longrightarrow> map_of (map (\<lambda>h. (h, F h)) hs) h = Some (F h)"
  by (induction hs) auto

lemma set_first_occurrences: "set (first_occurrences xs) = set xs"
  by (simp add: first_occurrences_def)

text \<open>
  Claim C10. When the fixtures table has the required columns, the result of
  \<^verbatim>\<open>build_team_fixture_difficulty\<close> is a dense grid: for every team id that is the home
  or away team of a fixture and every gameweek between the least and the greatest
  fixture gameweek, it has exactly one row of that team and gameweek, also where the
  team has no fixture. It has no other rows.
\<close>

theorem fixture_grid_dense:
  assumes cols: "set required_fixture_columns \<subseteq> set (columns (ensure_gw_col fixtures))"
  shows "\<exists>out. build_team_fixture_difficulty fixtures teams_dim horizons = Inr out \<and>
     (\<forall>t g. (\<exists>f\<in>set (rows (ensure_gw_col fixtures)). home_team f = Some t \<or> away_team f = Some t) \<and>
            (\<exists>f\<in>set (rows (ensure_gw_col fixtures)). gw f \<le> g) \<and>
            (\<exists>f\<in>set (rows (ensure_gw_col fixtures)). g \<le> gw f)
        \<longrightarrow> length (filter (\<lambda>r. team_id r = Some t \<and> gw r = g) (rows out)) = 1) \<and>
     (\<forall>r\<in>set (rows out). \<exists>t. team_id r = Some t \<and>
            (\<exists>f\<in>set (rows (ensure_gw_col fixtures)). home_team f = Some t \<or> away_team f = Some t) \<and>
            (\<exists>f\<in>set (rows (ensure_gw_col fixtures)). gw f \<le> gw r) \<and>
            (\<exists>f\<in>set (rows (ensure_gw_col fixtures)). gw r \<le> gw f))"
proof (cases "rows fixtures = []")
  case True
  then have "rows (ensure_gw_col fixtures) = []" by (simp add: rows_ensure_empty)
  then show ?thesis using build_empty [OF cols True] by simp
next
  case False
  let ?fx = "rows (ensure_gw_col fixtures)"
  let ?tfx = "team_fx_rows ?fx teams_dim"
  let ?out = "difficulty_rows (has_strength teams_dim) ?tfx horizons"
  from build_rows [OF cols False] obtain cs where
    b: "build_team_fixture_difficulty fixtures teams_dim horizons = Inr \<lparr>columns = cs, rows = ?out\<rparr>"
    by blast
  have fxne: "?fx \<noteq> []" using False by (simp add: rows_ensure_empty)
  have ne: "?tfx \<noteq> []" using fxne by (rule tfx_nonempty)
  have one: "length (filter (\<lambda>r. team_id r = Some t \<and> gw r = g) ?out) = 1"
    if "(\<exists>f\<in>set ?fx. home_team f = Some t \<or> away_team f = Some t) \<and>
        (\<exists>f\<in>set ?fx. gw f \<le> g) \<and> (\<exists>f\<in>set ?fx. g \<le> gw f)" for t g
    using that
    by (simp add: difficulty_rows_count [OF ne] tfx_team_iff
          tfx_gw_iff [where P = "\<lambda>x. x \<le> g"] tfx_gw_iff [where P = "\<lambda>x. g \<le> x"])
  have mem: "\<exists>t. team_id r = Some t \<and>
            (\<exists>f\<in>set ?fx. home_team f = Some t \<or> away_team f = Some t) \<and>
            (\<exists>f\<in>set ?fx. gw f \<le> gw r) \<and> (\<exists>f\<in>set ?fx. gw r \<le> gw f)"
    if "r \<in> set ?out" for r
    using difficulty_rows_member [OF ne that]
    by (simp add: tfx_team_iff
          tfx_gw_iff [where P = "\<lambda>x. x \<le> gw r"] tfx_gw_iff [where P = "\<lambda>x. gw r \<le> x"])
       blast
  show ?thesis
    apply (rule exI [of _ "\<lparr>columns = cs, rows = ?out\<rparr>"])
    apply (simp only: b frame.simps simp_thms)
    using one mem apply blast
    done
qed

theorem fixture_grid_dense_witness:
  "set required_fixture_columns \<subseteq> set (columns (ensure_gw_col
      \<lparr>columns = [''gameweek'', ''home_team'', ''away_team'', ''home_team_elo'', ''away_team_elo''],
       rows = [\<lparr>gw = 0, gameweek = 1, home_team = Some 1, away_team = Some 2,
                home_team_elo = Some 1500, away_team_elo = Some 1400,
                finished = CBool False, match_id = 10\<rparr>,
               \<lparr>gw = 0, gameweek = 3, home_team = Some 3, away_team = Some 1,
                home_team_elo = Some 1600, away_team_elo = Some 1500,
                finished = CBool False, match_id = 11\<rparr>]\<rparr>)) \<and>
   (\<exists>out. build_team_fixture_difficulty
      \<lparr>columns = [''gameweek'', ''home_team'', ''away_team'', ''home_team_elo'', ''away_team_elo''],
       rows = [\<lparr>gw = 0, gameweek = 1, home_team = Some 1, away_team = Some 2,
                home_team_elo = Some 1500, away_team_elo = Some 1400,
                finished = CBool False, match_id = 10\<rparr>,
               \<lparr>gw = 0, gameweek = 3, home_team = Some 3, away_team = Some 1,
                home_team_elo = Some 1600, away_team_elo = Some 1500,
                finished = CBool False, match_id = 11\<rparr>]\<rparr> None [1, 5] = Inr out \<and>
      length (filter (\<lambda>r. team_id r = Some 2 \<and> gw r = 2) (rows out)) = 1 \<and>
      length (rows out) = 9)"
proof -
  let ?F = "\<lparr>columns = [''gameweek'', ''home_team'', ''away_team'', ''home_team_elo'', ''away_team_elo''],
       rows = [\<lparr>gw = 0, gameweek = 1, home_team = Some 1, away_team = Some 2,
                home_team_elo = Some 1500, away_team_elo = Some 1400,
                finished = CBool False, match_id = 10\<rparr>,
               \<lparr>gw = 0, gameweek = 3, home_team = Some 3, away_team = Some 1,
                home_team_elo = Some 1600, away_team_elo = Some 1500,
                finished = CBool False, match_id = (11::int)\<rparr>]\<rparr>"
  have cols: "set required_fixture_columns \<subseteq> set (columns (ensure_gw_col ?F))"
    by (simp add: required_fixture_columns_def ensure_gw_col_def)
  have n: "map_sum id (\<lambda>out. length (rows out)) (build_team_fixture_difficulty ?F None [1, 5]) = Inr 9"
    by code_simp
  from fixture_grid_dense [OF cols, of None "[1, 5]"] obtain out where
    b: "build_team_fixture_difficulty ?F None [1, 5] = Inr out"
    and g: "\<forall>t g. (\<exists>f\<in>set (rows (ensure_gw_col ?F)). home_team f = Some t \<or> away_team f = Some t) \<and>
            (\<exists>f\<in>set (rows (ensure_gw_col ?F)). gw f \<le> g) \<and>
            (\<exists>f\<in>set (rows (ensure_gw_col ?F)). g \<le> gw f)
        \<longrightarrow> length (filter (\<lambda>r. team_id r = Some t \<and> gw r = g) (rows out)) = 1"
    by (elim exE conjE) (rule that, assumption+)
  have "length (filter (\<lambda>r. team_id r = Some 2 \<and> gw r = 2) (rows out)) = 1"
    by (rule g [rule_format]) (simp add: ensure_gw_col_def)
  moreover have "length (rows out) = 9" using n b by simp
  ultimately show ?thesis using cols b by blast
qed

text \<open>
  Claim C7 (amended). In a row of the result for team \<open>t\<close> and gameweek \<open>g\<close>, and for a
  horizon \<open>h\<close>, whenever the fixture count is zero the four aggregates (home share,
  average opponent Elo, average opponent strength, average Elo delta) are missing
  values. When the teams dimension has at most one row per team id, the fixture count is
  the number of fixtures of \<open>t\<close>, at home or away, with a gameweek greater than \<open>g\<close> and at
  most \<open>g + h\<close>.
\<close>

theorem fixture_count_spec:
  assumes cols: "set required_fixture_columns \<subseteq> set (columns (ensure_gw_col fixtures))"
      and out: "build_team_fixture_difficulty fixtures teams_dim horizons = Inr out"
      and r: "r \<in> set (rows out)" and h: "h \<in> set horizons"
  shows "\<exists>t fs. team_id r = Some t \<and> map_of (feats r) h = Some fs \<and>
           ((\<forall>d. teams_dim = Some d \<longrightarrow> distinct (map id' (rows d))) \<longrightarrow>
              fixture_count fs =
                length (filter (\<lambda>f. home_team f = Some t \<and> gw r < gw f \<and> gw f \<le> gw r + h)
                          (rows (ensure_gw_col fixtures))) +
                length (filter (\<lambda>f. away_team f = Some t \<and> gw r < gw f \<and> gw f \<le> gw r + h)
                          (rows (ensure_gw_col fixtures)))) \<and>
           (fixture_count fs = 0 \<longrightarrow>
              home_share fs = None \<and> opp_elo_avg fs = None \<and>
              opp_strength_avg fs = None \<and> elo_delta_avg fs = None)"
proof -
  let ?fx = "rows (ensure_gw_col fixtures)"
  let ?tfx = "team_fx_rows ?fx teams_dim"
  let ?ws = "has_strength teams_dim"
  have ne: "rows fixtures \<noteq> []"
  proof
    assume "rows fixtures = []"
    then have "out = \<lparr>columns = [], rows = []\<rparr>" using build_empty [OF cols] out by simp
    then show False using r by simp
  qed
  from build_rows [OF cols ne, of teams_dim horizons] obtain cs where
    "build_team_fixture_difficulty fixtures teams_dim horizons =
       Inr \<lparr>columns = cs, rows = difficulty_rows ?ws ?tfx horizons\<rparr>" by blast
  with out have "out = \<lparr>columns = cs, rows = difficulty_rows ?ws ?tfx horizons\<rparr>" by simp
  then have o: "rows out = difficulty_rows ?ws ?tfx horizons" by simp
  have fxne: "?fx \<noteq> []" using ne by (simp add: rows_ensure_empty)
  have tne: "?tfx \<noteq> []" using fxne by (rule tfx_nonempty)
  from difficulty_rows_member [OF tne r [unfolded o]]
  obtain t where t: "team_id r = Some t"
    and f: "feats r = map (\<lambda>h. (h, horizon_row ?ws (upcoming ?tfx t (gw r) h))) (first_occurrences horizons)"
    by blast
  let ?fs = "horizon_row ?ws (upcoming ?tfx t (gw r) h)"
  have m: "map_of (feats r) h = Some ?fs"
    unfolding f using h by (intro map_of_tabulate) (simp add: set_first_occurrences)
  have c: "fixture_count ?fs =
                length (filter (\<lambda>f. home_team f = Some t \<and> gw r < gw f \<and> gw f \<le> gw r + h) ?fx) +
                length (filter (\<lambda>f. away_team f = Some t \<and> gw r < gw f \<and> gw f \<le> gw r + h) ?fx)"
    if "\<forall>d. teams_dim = Some d \<longrightarrow> distinct (map id' (rows d))"
    by (simp add: fixture_count_horizon_row length_upcoming tkey_team_fx_rows_distinct [OF that]
          filter_map comp_def)
  have z: "fixture_count ?fs = 0 \<longrightarrow>
              home_share ?fs = None \<and> opp_elo_avg ?fs = None \<and>
              opp_strength_avg ?fs = None \<and> elo_delta_avg ?fs = None"
    using horizon_row_zero by blast
  show ?thesis
    apply (rule exI [of _ t], rule exI [of _ ?fs])
    apply (intro conjI impI)
    subgoal by (rule t)
    subgoal by (rule m)
    subgoal by (rule c)
    subgoal using z by blast
    subgoal using z by blast
    subgoal using z by blast
    subgoal using z by blast
    done
qed

theorem fixture_count_spec_witness:
  "\<exists>out r fs. build_team_fixture_difficulty
      \<lparr>columns = [''gw'', ''home_team'', ''away_team'', ''home_team_elo'', ''away_team_elo''],
       rows = [\<lparr>gw = 1, gameweek = 1, home_team = Some 1, away_team = Some 2,
                home_team_elo = Some 1500, away_team_elo = Some 1400,
                finished = CBool False, match_id = 10\<rparr>,
               \<lparr>gw = 2, gameweek = 2, home_team = Some 1, away_team = Some 3,
                home_team_elo = Some 1500, away_team_elo = Some 1400,
                finished = CBool False, match_id = 11\<rparr>]\<rparr>
      (Some \<lparr>columns = [''id'', ''strength''],
       rows = [\<lparr>id' = Some 3, strength = Some 2, elo = None\<rparr>,
               \<lparr>id' = Some 2, strength = Some 4, elo = None\<rparr>]\<rparr>) [1] = Inr out \<and>
      r \<in> set (rows out) \<and> team_id r = Some 1 \<and> gw r = 1 \<and>
      map_of (feats r) 1 = Some fs \<and> fixture_count fs = 1"
proof -
  let ?F = "\<lparr>columns = [''gw'', ''home_team'', ''away_team'', ''home_team_elo'', ''away_team_elo''],
       rows = [\<lparr>gw = 1, gameweek = 1, home_team = Some 1, away_team = Some 2,
                home_team_elo = Some 1500, away_team_elo = Some 1400,
                finished = CBool False, match_id = 10\<rparr>,
               \<lparr>gw = 2, gameweek = 2, home_team = Some 1, away_team = Some 3,
                home_team_elo = Some 1500, away_team_elo = Some 1400,
                finished = CBool False, match_id = 11\<rparr>]\<rparr>"
  let ?D = "\<lparr>columns = [''id'', ''strength''],
       rows = [\<lparr>id' = Some 3, strength = Some 2, elo = None\<rparr>,
               \<lparr>id' = Some 2, strength = Some 4, elo = None\<rparr>]\<rparr>"
  have cols: "set required_fixture_columns \<subseteq> set (columns (ensure_gw_col ?F))"
    by (simp add: required_fixture_columns_def ensure_gw_col_def)
  have ne: "rows ?F \<noteq> []" by simp
  from build_rows [OF cols ne, of "Some ?D" "[1]"] obtain out where
    b: "build_team_fixture_difficulty ?F (Some ?D) [1] = Inr out"
    and o: "rows out = difficulty_rows (has_strength (Some ?D))
                         (team_fx_rows (rows (ensure_gw_col ?F)) (Some ?D)) [1]"
    by force
  have tne: "team_fx_rows (rows (ensure_gw_col ?F)) (Some ?D) \<noteq> []"
    by (rule tfx_nonempty) (simp add: ensure_gw_col_def)
  have "length (filter (\<lambda>r. team_id r = Some 1 \<and> gw r = 1) (rows out)) = 1"
    unfolding o difficulty_rows_count [OF tne] tfx_team_iff
      tfx_gw_iff [where P = "\<lambda>x. x \<le> 1"] tfx_gw_iff [where P = "\<lambda>x. 1 \<le> x"]
    by (simp add: ensure_gw_col_def)
  then have "filter (\<lambda>r. team_id r = Some 1 \<and> gw r = 1) (rows out) \<noteq> []" by auto
  then obtain r where r: "r \<in> set (rows out)" and rt: "team_id r = Some 1" and rg: "gw r = 1"
    by (auto simp: filter_empty_conv)
  have h: "(1::int) \<in> set [1]" by simp
  from fixture_count_spec [OF cols b r h] obtain t fs where
    t: "team_id r = Some t" and m: "map_of (feats r) 1 = Some fs"
    and c: "(\<forall>d. Some ?D = Some d \<longrightarrow> distinct (map id' (rows d))) \<longrightarrow>
              fixture_count fs =
                length (filter (\<lambda>f. home_team f = Some t \<and> gw r < gw f \<and> gw f \<le> gw r + 1)
                          (rows (ensure_gw_col ?F))) +
                length (filter (\<lambda>f. away_team f = Some t \<and> gw r < gw f \<and> gw f \<le> gw r + 1)
                          (rows (ensure_gw_col ?F)))"
    by (elim exE conjE) (rule that, assumption+)
  have t1: "t = 1" using t rt by simp
  have "fixture_count fs = 1"
    using c by (simp add: t1 rg ensure_gw_col_def)
  then show ?thesis using b r rt rg m by blast
qed

text \<open>
  The left joins with the teams dimension repeat a fixture once per dimension row of the
  joined id. With two dimension rows for team 3, the one fixture of team 1 in gameweek 2
  (against team 3) is counted twice at gameweek 1 for horizon 1.
\<close>

theorem fixture_count_duplicate_dim_counterexample:
  "map_sum id (\<lambda>out. map (\<lambda>r. (team_id r, gw r, map (\<lambda>(h, fs). (h, fixture_count fs)) (feats r)))
                         (rows out))
     (build_team_fixture_difficulty
      \<lparr>columns = [''gw'', ''home_team'', ''away_team'', ''home_team_elo'', ''away_team_elo''],
       rows = [\<lparr>gw = 1, gameweek = 1, home_team = Some 1, away_team = Some 2,
                home_team_elo = Some 1500, away_team_elo = Some 1400,
                finished = CBool False, match_id = 10\<rparr>,
               \<lparr>gw = 2, gameweek = 2, home_team = Some 1, away_team = Some 3,
                home_team_elo = Some 1500, away_team_elo = Some 1400,
                finished = CBool False, match_id = 11\<rparr>]\<rparr>
      (Some \<lparr>columns = [''id'', ''strength''],
       rows = [\<lparr>id' = Some 3, strength = Some 2, elo = None\<rparr>,
               \<lparr>id' = Some 3, strength = Some 4, elo = None\<rparr>]\<rparr>) [1])
   = Inr [(Some 1, 1, [(1, 2)]), (Some 1, 2, [(1, 0)]), (Some 2, 1, [(1, 0)]),
          (Some 2, 2, [(1, 0)]), (Some 3, 1, [(1, 1)]), (Some 3, 2, [(1, 0)])] \<and>
   length (filter (\<lambda>f. (home_team f = Some 1 \<or> away_team f = Some 1) \<and> 1 < gw f \<and> gw f \<le> 1 + 1)
      (rows \<lparr>columns = [''gw'', ''home_team'', ''away_team'', ''home_team_elo'', ''away_team_elo''],
       rows = [\<lparr>gw = 1, gameweek = 1, home_team = Some 1, away_team = Some 2,
                home_team_elo = Some 1500, away_team_elo = Some 1400,
                finished = CBool False, match_id = 10\<rparr>,
               \<lparr>gw = 2, gameweek = 2, home_team = Some 1, away_team = Some 3,
                home_team_elo = Some 1500, away_team_elo = Some 1400,
                finished = CBool False, match_id = 11\<rparr>]\<rparr>)) = 1"
  by code_simp

section \<open>Properties of the substitution rates\<close>

lemma derive_gw_ok:
  assumes "''match_id'' \<in> set (columns m)"
      and "''gw'' \<in> set (columns pm) \<or> ''gw'' \<in> set (columns m)"
  shows "\<exists>pm'. derive_gw pm m = Inr pm' \<and> set (columns pm') = insert ''gw'' (set (columns pm))"
proof (cases "''gw'' \<in> set (columns pm)")
  case True
  then show ?thesis
    by (cases "''gw_y'' \<in> set (columns pm) \<and> ''gw_x'' \<in> set (columns pm)")
       (auto simp: derive_gw_def)
next
  case False
  then have "''gw'' \<in> set (columns m)" using assms(2) by simp
  then show ?thesis using False assms(1) by (simp add: derive_gw_def)
qed

text \<open>
  The early returns of \<^verbatim>\<open>add_substitution_rates\<close>: the base frame comes back unchanged
  when the player-match table or the match table is empty, when \<^verbatim>\<open>match_id\<close> is not a
  column of both, when \<^verbatim>\<open>player_id\<close> is not a column of the player-match table, and,
  where a gameweek can be derived, when \<^verbatim>\<open>start_min\<close> or \<^verbatim>\<open>finish_min\<close> is absent.
\<close>

lemma add_substitution_rates_returns_base:
  assumes "empty playermatchstats \<or> empty matches \<or>
           ''match_id'' \<notin> set (columns playermatchstats) \<or> ''match_id'' \<notin> set (columns matches) \<or>
           ''player_id'' \<notin> set (columns playermatchstats) \<or>
           ((''gw'' \<in> set (columns playermatchstats) \<or> ''gw'' \<in> set (columns matches) \<or>
             ''gameweek'' \<in> set (columns matches)) \<and>
            (''start_min'' \<notin> set (columns playermatchstats) \<or>
             ''finish_min'' \<notin> set (columns playermatchstats)))"
  shows "add_substitution_rates base_df playermatchstats matches window_gw early_sub_min sub_on_min
           = Inr base_df"
proof -
  consider (a) "empty playermatchstats \<or> empty matches"
    | (b) "\<not> (empty playermatchstats \<or> empty matches)"
          "''match_id'' \<notin> set (columns playermatchstats) \<or> ''match_id'' \<notin> set (columns matches)"
    | (c) "\<not> (empty playermatchstats \<or> empty matches)"
          "\<not> (''match_id'' \<notin> set (columns playermatchstats) \<or> ''match_id'' \<notin> set (columns matches))"
          "''player_id'' \<notin> set (columns playermatchstats)"
    | (d) "\<not> (empty playermatchstats \<or> empty matches)"
          "\<not> (''match_id'' \<notin> set (columns playermatchstats) \<or> ''match_id'' \<notin> set (columns matches))"
          "''player_id'' \<in> set (columns playermatchstats)"
          "''gw'' \<in> set (columns playermatchstats) \<or> ''gw'' \<in> set (columns matches) \<or>
             ''gameweek'' \<in> set (columns matches)"
          "''start_min'' \<notin> set (columns playermatchstats) \<or>
             ''finish_min'' \<notin> set (columns playermatchstats)"
    using assms by blast
  then show ?thesis
  proof cases
    case a
    then show ?thesis by (simp add: add_substitution_rates_def)
  next
    case b
    then show ?thesis by (simp add: add_substitution_rates_def)
  next
    case c
    then show ?thesis by (simp add: add_substitution_rates_def)
  next
    case d
    have g: "''gw'' \<in> set (columns (ensure_gw_col matches)) \<or> ''gw'' \<in> set (columns playermatchstats)"
      using d(4) by (auto simp: ensure_gw_col_def)
    have m: "''match_id'' \<in> set (columns (ensure_gw_col matches))"
      using d(2) by (auto simp: ensure_gw_col_def)
    obtain pm where pm: "derive_gw playermatchstats (ensure_gw_col matches) = Inr pm"
      and cs: "set (columns pm) = insert ''gw'' (set (columns playermatchstats))"
      using derive_gw_ok [OF m] g by blast
    have "''start_min'' \<notin> set (columns pm) \<or> ''finish_min'' \<notin> set (columns pm)"
      using d(5) cs by auto
    then show ?thesis using d(1,2,3) pm cs by (simp add: add_substitution_rates_def)
  qed
qed

text \<open>
  Claim C8. \<^verbatim>\<open>add_substitution_rates\<close> should return the base frame unchanged whenever a
  dependency is missing, also when no gameweek can be derived. Where the player-match
  table has no \<^verbatim>\<open>gw\<close> column and the match table has neither \<^verbatim>\<open>gw\<close> nor \<^verbatim>\<open>gameweek\<close>
  (both tables being non-empty, with their \<^verbatim>\<open>match_id\<close> and \<^verbatim>\<open>player_id\<close> columns), the
  function does not return: the selection \<^verbatim>\<open>matches[["match_id", "gw"]]\<close> raises
  \<^verbatim>\<open>KeyError\<close> before the test \<^verbatim>\<open>if "gw" not in pm.columns: return base_df\<close> is reached.
\<close>

theorem add_substitution_rates_underivable_gw:
  assumes "\<not> empty playermatchstats" and "\<not> empty matches"
      and "''match_id'' \<in> set (columns playermatchstats)" and "''match_id'' \<in> set (columns matches)"
      and "''player_id'' \<in> set (columns playermatchstats)"
      and "''gw'' \<notin> set (columns playermatchstats)"
      and "''gw'' \<notin> set (columns matches)" and "''gameweek'' \<notin> set (columns matches)"
  shows "add_substitution_rates base_df playermatchstats matches window_gw early_sub_min sub_on_min
           = Inl KeyError"
  using assms by (simp add: add_substitution_rates_def derive_gw_def ensure_gw_col_def)


theorem add_substitution_rates_underivable_gw_witness:
  "add_substitution_rates
      \<lparr>columns = [''player_id'', ''gw''],
         rows = [\<lparr>gw = 1, player_id = 7, num = (\<lambda>c. None)\<rparr>]\<rparr>
      \<lparr>columns = [''player_id'', ''match_id'', ''start_min'', ''finish_min'', ''minutes_played''],
         rows = [\<lparr>gw = 0, player_id = 7,
                  num = (\<lambda>c. None)(''match_id'' := Some 10, ''start_min'' := Some 0,
                                     ''finish_min'' := Some 60, ''minutes_played'' := Some 60)\<rparr>]\<rparr>
      \<lparr>columns = [''match_id'', ''home_team'', ''away_team'', ''finished''],
         rows = [\<lparr>gw = 0, gameweek = 0, home_team = Some 1, away_team = Some 2,
                  home_team_elo = None, away_team_elo = None,
                  finished = CBool True, match_id = 10\<rparr>]\<rparr>
      5 70 1 = Inl KeyError"
proof -
  let ?pm = "\<lparr>columns = [''player_id'', ''match_id'', ''start_min'', ''finish_min'', ''minutes_played''],
         rows = [\<lparr>gw = 0, player_id = 7,
                  num = (\<lambda>c. None)(''match_id'' := Some 10, ''start_min'' := Some 0,
                                     ''finish_min'' := Some 60, ''minutes_played'' := Some 60)\<rparr>]\<rparr>"
  let ?m = "\<lparr>columns = [''match_id'', ''home_team'', ''away_team'', ''finished''],
         rows = [\<lparr>gw = 0, gameweek = 0, home_team = Some 1, away_team = Some 2,
                  home_team_elo = None, away_team_elo = None,
                  finished = CBool True, match_id = 10\<rparr>]\<rparr>"
  have "\<not> empty ?pm" "\<not> empty ?m" "''match_id'' \<in> set (columns ?pm)"
    "''match_id'' \<in> set (columns ?m)" "''player_id'' \<in> set (columns ?pm)"
    "''gw'' \<notin> set (columns ?pm)" "''gw'' \<notin> set (columns ?m)"
    "''gameweek'' \<notin> set (columns ?m)"
    by (simp_all add: empty_def)
  then show ?thesis by (rule add_substitution_rates_underivable_gw)
qed

section \<open>Rolling features: properties\<close>

subsection \<open>Names of the generated columns\<close>

lemma lt10_cases:
  "d < 10 \<Longrightarrow> d = 0 \<or> d = 1 \<or> d = 2 \<or> d = 3 \<or> d = 4 \<or> d = 5 \<or> d = 6 \<or> d = 7 \<or> d = 8 \<or> d = (9::nat)"
  by arith

lemma digit_char_props:
  assumes "d < 10"
  shows "is_digit (digit_char d) \<and> digit_val (digit_char d) = d"
  using lt10_cases [OF assms]
  by (elim disjE) (simp_all add: is_digit_def digit_val_def digit_char_def)

lemma str_nat_digits: "\<forall>c\<in>set (str_nat n). is_digit c"
proof (induction n rule: str_nat.induct)
  case (1 n)
  show ?case
  proof (cases "n < 10")
    case True
    then show ?thesis by (subst str_nat.simps) (simp add: digit_char_props)
  next
    case False
    then have "\<forall>c\<in>set (str_nat (n div 10)). is_digit c" using 1 by simp
    moreover have "is_digit (digit_char (n mod 10))" by (simp add: digit_char_props)
    ultimately show ?thesis using False by (subst str_nat.simps) simp
  qed
qed

lemma nat_of_str_snoc: "nat_of_str (s @ [c]) = 10 * nat_of_str s + digit_val c"
  by (simp add: nat_of_str_def)

lemma nat_of_str_str_nat: "nat_of_str (str_nat n) = n"
proof (induction n rule: str_nat.induct)
  case (1 n)
  show ?case
  proof (cases "n < 10")
    case True
    then show ?thesis
      by (subst str_nat.simps) (simp add: nat_of_str_def digit_char_props)
  next
    case False
    then have "nat_of_str (str_nat (n div 10)) = n div 10" using 1 by simp
    then show ?thesis using False
      by (subst str_nat.simps) (simp add: nat_of_str_snoc digit_char_props)
  qed
qed

lemma str_nat_inj: "str_nat m = str_nat n \<Longrightarrow> m = n"
  by (metis nat_of_str_str_nat)

lemma digit_suffix:
  assumes "\<not> is_digit x"
  shows "takeWhile is_digit (rev (pre @ x # str_nat n)) = rev (str_nat n)"
    and "dropWhile is_digit (rev (pre @ x # str_nat n)) = x # rev pre"
  using assms str_nat_digits [of n] by (simp_all add: takeWhile_append dropWhile_append)

lemma roll_name_split: "roll_name c w = (c @ ''_rol'') @ CHR ''l'' # str_nat w"
  by (simp add: roll_name_def)

lemma trend_name_split:
  "trend_name b s l = (b @ ''_trend_'' @ str_nat s) @ CHR ''_'' # str_nat l"
  by (simp add: trend_name_def)

lemma not_digit_l: "\<not> is_digit CHR ''l''" and not_digit_us: "\<not> is_digit CHR ''_''"
  by (simp_all add: is_digit_def)

lemma roll_name_inj: "roll_name c w = roll_name c' w' \<Longrightarrow> c = c' \<and> w = w'"
proof -
  assume e: "roll_name c w = roll_name c' w'"
  have "rev (str_nat w) = takeWhile is_digit (rev (roll_name c w))"
    unfolding roll_name_split by (simp only: digit_suffix(1) [OF not_digit_l])
  also have "\<dots> = rev (str_nat w')"
    unfolding e unfolding roll_name_split by (simp only: digit_suffix(1) [OF not_digit_l])
  finally have w: "w = w'" using str_nat_inj by simp
  then show ?thesis using e by (simp add: roll_name_def)
qed

lemma roll_name_not_trend: "roll_name c w \<noteq> trend_name b s l"
proof
  assume e: "roll_name c w = trend_name b s l"
  have "hd (dropWhile is_digit (rev (roll_name c w))) = CHR ''l''"
    unfolding roll_name_split by (simp only: digit_suffix(2) [OF not_digit_l] list.sel)
  moreover have "hd (dropWhile is_digit (rev (trend_name b s l))) = CHR ''_''"
    unfolding trend_name_split by (simp only: digit_suffix(2) [OF not_digit_us] list.sel)
  ultimately show False using e by simp
qed

lemma roll_name_not_key: "roll_name c w \<noteq> ''gw''" "roll_name c w \<noteq> ''player_id''"
proof -
  have l: "hd (dropWhile is_digit (rev (roll_name c w))) = CHR ''l''"
    unfolding roll_name_split by (simp only: digit_suffix(2) [OF not_digit_l] list.sel)
  have "hd (dropWhile is_digit (rev ''gw'')) = CHR ''w''" by (simp add: is_digit_def)
  then show "roll_name c w \<noteq> ''gw''" using l by auto
  have "hd (dropWhile is_digit (rev ''player_id'')) = CHR ''d''" by (simp add: is_digit_def)
  then show "roll_name c w \<noteq> ''player_id''" using l by auto
qed

subsection \<open>The dictionary of new columns\<close>

lemma fold_update_lookup:
  assumes "\<And>x. x \<in> set xs \<Longrightarrow> K x = k \<Longrightarrow> V x = v"
  shows "map_of (fold (\<lambda>x. AList.update (K x) (V x)) xs d0) k =
         (if k \<in> K ` set xs then Some v else map_of d0 k)"
  using assms
proof (induction xs arbitrary: d0)
  case Nil
  then show ?case by simp
next
  case (Cons a xs)
  have "map_of (fold (\<lambda>x. AList.update (K x) (V x)) xs (AList.update (K a) (V a) d0)) k =
        (if k \<in> K ` set xs then Some v else map_of (AList.update (K a) (V a) d0) k)"
    by (rule Cons.IH) (simp add: Cons.prems)
  moreover have "map_of (AList.update (K a) (V a) d0) k = (if K a = k then Some v else map_of d0 k)"
    using Cons.prems [of a] by (auto simp: AList.update_conv')
  ultimately show ?case by auto
qed

lemma rolled_inner:
  "map_of (fold (\<lambda>w'. AList.update (roll_name col w') (T col w')) windows d) (roll_name c w) =
   (if col = c \<and> w \<in> set windows then Some (T c w) else map_of d (roll_name c w))"
proof -
  have "map_of (fold (\<lambda>w'. AList.update (roll_name col w') (T col w')) windows d) (roll_name c w) =
        (if roll_name c w \<in> (\<lambda>w'. roll_name col w') ` set windows then Some (T c w)
         else map_of d (roll_name c w))"
    by (rule fold_update_lookup) (auto dest: roll_name_inj)
  moreover have "roll_name c w \<in> (\<lambda>w'. roll_name col w') ` set windows \<longleftrightarrow> col = c \<and> w \<in> set windows"
    by (auto dest: roll_name_inj)
  ultimately show ?thesis by simp
qed

lemma rolled_outer:
  "map_of (fold (\<lambda>col d. fold (\<lambda>w'. AList.update (roll_name col w') (T col w')) windows d) cols d0)
     (roll_name c w) =
   (if c \<in> set cols \<and> w \<in> set windows then Some (T c w) else map_of d0 (roll_name c w))"
proof (induction cols arbitrary: d0)
  case Nil
  then show ?case by simp
next
  case (Cons a cols)
  show ?case by (simp add: Cons.IH rolled_inner)
qed

lemma rolled_cols_lookup:
  "c \<in> set roll_cols \<Longrightarrow> w \<in> set windows \<Longrightarrow>
   map_of (rolled_cols ic windows roll_cols df) (roll_name c w) =
     Some (transform (rolling ic w) (map player_id (rows df)) (column df c))"
  unfolding rolled_cols_def
  by (simp add: rolled_outer [where T = "\<lambda>col w. transform (rolling ic w) (map player_id (rows df)) (column df col)"])

lemma trends_fold_lookup:
  "map_of (fold (\<lambda>(base_col, w_short, w_long) d.
             case map_of d (roll_name base_col w_short) of
               None \<Rightarrow> d
             | Some s \<Rightarrow>
                 (case map_of d (roll_name base_col w_long) of
                    None \<Rightarrow> d
                  | Some l \<Rightarrow> AList.update (trend_name base_col w_short w_long)
                                           (map2 sub_opt s l) d)) ps d0) (roll_name c w)
   = map_of d0 (roll_name c w)"
proof (induction ps arbitrary: d0)
  case Nil
  then show ?case by simp
next
  case (Cons p ps)
  obtain b s l where p: "p = (b, s, l)" by (cases p)
  show ?case
    by (simp add: p Cons.IH AList.update_conv' roll_name_not_trend split: option.splits)
qed

lemma add_trends_lookup: "map_of (add_trends d) (roll_name c w) = map_of d (roll_name c w)"
  unfolding add_trends_def by (rule trends_fold_lookup)

lemma concat_cols_rows:
  "length (rows (concat_cols df nc)) = length (rows df)"
  by (simp add: concat_cols_def)

lemma concat_cols_nth:
  assumes "i < length (rows df)"
  shows "player_id (rows (concat_cols df nc) ! i) = player_id (rows df ! i)"
    and "gw (rows (concat_cols df nc) ! i) = gw (rows df ! i)"
    and "k \<noteq> ''gw'' \<Longrightarrow> k \<noteq> ''player_id'' \<Longrightarrow> map_of nc k = Some s \<Longrightarrow>
         col_val (rows (concat_cols df nc) ! i) k = s ! i"
  using assms by (simp_all add: concat_cols_def col_val_def)

subsection \<open>Rolling means per entity\<close>

lemma insort_key_rel:
  assumes "\<And>x y. R x y \<Longrightarrow> key x = key y"
  shows "R x y \<Longrightarrow> list_all2 R xs ys \<Longrightarrow> list_all2 R (insort_key key x xs) (insort_key key y ys)"
proof (induction xs arbitrary: ys)
  case Nil
  then show ?case by simp
next
  case (Cons a xs)
  from Cons.prems(2) obtain b ys' where ys: "ys = b # ys'" and ab: "R a b" and r: "list_all2 R xs ys'"
    by (auto simp: list_all2_Cons1)
  have k: "key x = key y" "key a = key b" using assms Cons.prems(1) ab by auto
  show ?case using Cons.IH [OF Cons.prems(1) r] Cons.prems(1) ab r by (simp add: ys k)
qed

lemma sort_key_rel:
  assumes "\<And>x y. R x y \<Longrightarrow> key x = key y"
  shows "list_all2 R xs ys \<Longrightarrow> list_all2 R (sort_key key xs) (sort_key key ys)"
proof (induction xs arbitrary: ys)
  case Nil
  then show ?case by simp
next
  case (Cons a xs)
  from Cons.prems obtain b ys' where ys: "ys = b # ys'" and ab: "R a b" and r: "list_all2 R xs ys'"
    by (auto simp: list_all2_Cons1)
  show ?case
    unfolding ys sort_key_simps
    by (rule insort_key_rel [OF assms ab Cons.IH [OF r]])
qed

lemma rolling_mean_nth:
  "k < length s \<Longrightarrow> rolling_mean w 1 s ! k = mean_obs (window_at w s k)"
  by (auto simp: rolling_mean_def mean_obs_def Let_def Suc_le_eq)

lemma length_rolling_mean: "length (rolling_mean w m s) = length s"
  by (simp add: rolling_mean_def)

lemma take_filter_upt:
  assumes "i < n" "P i"
  shows "take (Suc (length (filter P [0..<i]))) (filter P [0..<n]) = filter P [0..<Suc i]"
proof -
  have "[0..<Suc i + (n - Suc i)] = [0..<Suc i] @ [Suc i..<Suc i + (n - Suc i)]"
    by (rule upt_add_eq_append) simp
  then have "[0..<n] = [0..<Suc i] @ [Suc i..<n]"
    using assms(1) by simp
  then have "filter P [0..<n] = filter P [0..<Suc i] @ filter P [Suc i..<n]" by simp
  moreover have "length (filter P [0..<Suc i]) = Suc (length (filter P [0..<i]))"
    using assms(2) by simp
  ultimately show ?thesis by simp
qed

lemma rank_lt_positions:
  assumes "i < length ids"
  shows "rank ids i < length (positions ids (ids ! i))"
proof -
  have "take (Suc (rank ids i)) (positions ids (ids ! i)) =
        filter (\<lambda>j. ids ! j = ids ! i) [0..<Suc i]"
    unfolding rank_def positions_def by (rule take_filter_upt) (use assms in simp_all)
  then have "length (take (Suc (rank ids i)) (positions ids (ids ! i))) = Suc (rank ids i)"
    by (simp add: rank_def)
  then show ?thesis by simp
qed

lemma transform_rolling_nth:
  assumes i: "i < length ids"
  shows "transform (rolling_mean w 1) ids s ! i =
         mean_obs (map (\<lambda>j. s ! j)
           (drop (length (filter (\<lambda>j. ids ! j = ids ! i) [0..<Suc i]) - w)
                 (filter (\<lambda>j. ids ! j = ids ! i) [0..<Suc i])))"
proof -
  let ?e = "ids ! i"
  let ?pos = "positions ids ?e"
  let ?k = "rank ids i"
  let ?ps = "filter (\<lambda>j. ids ! j = ?e) [0..<Suc i]"
  have tk: "take (Suc ?k) ?pos = ?ps"
    unfolding rank_def positions_def by (rule take_filter_upt) (use i in simp_all)
  have lp: "length ?ps = Suc ?k" by (simp add: rank_def)
  have klt: "?k < length ?pos" by (rule rank_lt_positions [OF i])
  have "transform (rolling_mean w 1) ids s ! i = rolling_mean w 1 (map (\<lambda>j. s ! j) ?pos) ! ?k"
    using i by (simp add: transform_def)
  also have "\<dots> = mean_obs (window_at w (map (\<lambda>j. s ! j) ?pos) ?k)"
    by (rule rolling_mean_nth) (simp add: klt)
  also have "window_at w (map (\<lambda>j. s ! j) ?pos) ?k =
             map (\<lambda>j. s ! j) (drop (Suc ?k - w) (take (Suc ?k) ?pos))"
    by (simp add: window_at_def take_map drop_map)
  also have "\<dots> = map (\<lambda>j. s ! j) (drop (length ?ps - w) ?ps)"
    by (simp only: tk lp)
  finally show ?thesis .
qed

lemma mean_obs_single: "mean_obs [v] = v"
  by (cases v) (simp_all add: mean_obs_def)

lemma keys_per90_step:
  assumes "length mins = length (rows df)" "i < length (rows df)"
  shows "player_id (rows (per90_step mins a df) ! i) = player_id (rows df ! i) \<and>
         gw (rows (per90_step mins a df) ! i) = gw (rows df ! i)"
  using assms by (simp add: per90_step_def keys_assign_col column_def)

lemma fold_per90_keys:
  "length mins = length (rows d0) \<Longrightarrow>
   length (rows (fold (per90_step mins) cs d0)) = length (rows d0) \<and>
   (\<forall>i<length (rows d0).
      player_id (rows (fold (per90_step mins) cs d0) ! i) = player_id (rows d0 ! i) \<and>
      gw (rows (fold (per90_step mins) cs d0) ! i) = gw (rows d0 ! i))"
proof (induction cs arbitrary: d0)
  case Nil
  then show ?case by simp
next
  case (Cons a cs)
  let ?d1 = "per90_step mins a d0"
  have len1: "length (rows ?d1) = length (rows d0)"
    using Cons.prems by (rule length_per90_step)
  have "length mins = length (rows ?d1)" using len1 Cons.prems by simp
  from Cons.IH [OF this] len1 keys_per90_step [OF Cons.prems]
  show ?case by simp
qed

lemma add_per90_same_on:
  assumes c: "c \<in> set (columns df)" and noalias: "\<forall>d\<in>set cs. per90_name d \<noteq> c"
  shows "list_all2 (same_on c) (rows (add_per90_features df cs minutes_col)) (rows df)"
proof (cases "minutes_col \<in> set (columns df)")
  case False
  then show ?thesis by (simp add: add_per90_features_def list_all2_refl same_on_def)
next
  case True
  let ?mins = "map zero_to_na (column df minutes_col)"
  have len: "length ?mins = length (rows df)" by (simp add: column_def)
  have e: "add_per90_features df cs minutes_col = fold (per90_step ?mins) cs df"
    using True by (simp add: add_per90_features_def)
  show ?thesis
    unfolding e list_all2_conv_all_nth same_on_def
    using fold_per90 [OF noalias c len] fold_per90_keys [OF len, of cs] by simp
qed

lemma sorted_pairs_same_player:
  assumes "sorted (map (\<lambda>r. (player_id r, gw r)) xs)" "j < i" "i < length xs"
    "player_id (xs ! j) = player_id (xs ! i)"
  shows "gw (xs ! j) \<le> gw (xs ! i)"
proof -
  have "map (\<lambda>r. (player_id r, gw r)) xs ! j \<le> map (\<lambda>r. (player_id r, gw r)) xs ! i"
    using assms(1,2,3) by (intro sorted_nth_mono) simp_all
  then show ?thesis using assms(2,3,4) by (simp add: less_eq_prod_def)
qed

lemma filter_upt_first:
  assumes "\<forall>j<i. \<not> P j" "P i"
  shows "filter P [0..<Suc i] = [i]"
proof -
  have "filter P [0..<i] = []" using assms(1) by (simp add: filter_empty_conv)
  then show ?thesis using assms(2) by simp
qed

lemma length_per90_frame:
  "length (rows (per90_frame df cols per90 minutes_col)) = length (rows df)"
proof (cases "per90 \<and> minutes_col \<in> set (columns df)")
  case True
  let ?mins = "map zero_to_na (column df minutes_col)"
  have len: "length ?mins = length (rows df)" by (simp add: column_def)
  show ?thesis
    using True fold_per90_keys [OF len, of "available_cols df cols"]
    by (simp add: per90_frame_def add_per90_features_def)
next
  case False
  then show ?thesis by (auto simp add: per90_frame_def add_per90_features_def)
qed

lemma rolling_features_rows:
  assumes ok: "add_player_rolling_features df windows cols per90 True minutes_col = Inr out"
      and c: "c \<in> set (roll_columns df cols per90 minutes_col)" and w: "w \<in> set windows"
  shows "length (rows out) = length (rows df) \<and>
         (rows df \<noteq> [] \<longrightarrow> 0 < w) \<and>
         (\<forall>i<length (rows df).
            player_id (rows out ! i) =
              player_id (rows (sort_values (per90_frame df cols per90 minutes_col)) ! i) \<and>
            gw (rows out ! i) = gw (rows (sort_values (per90_frame df cols per90 minutes_col)) ! i) \<and>
            col_val (rows out ! i) (roll_name c w) =
              transform (rolling_mean w 1)
                (map player_id (rows (sort_values (per90_frame df cols per90 minutes_col))))
                (column (sort_values (per90_frame df cols per90 minutes_col)) c) ! i)"
proof -
  define df1 where "df1 = per90_frame df cols per90 minutes_col"
  define rc where "rc = roll_columns df cols per90 minutes_col"
  define df2 where "df2 = sort_values df1"
  define nc where "nc = add_trends (rolled_cols True windows rc df2)"
  let ?ids = "map player_id (rows df2)"
  have keys: "\<not> (''player_id'' \<notin> set (columns df) \<or> ''gw'' \<notin> set (columns df))"
  proof
    assume "''player_id'' \<notin> set (columns df) \<or> ''gw'' \<notin> set (columns df)"
    then have "add_player_rolling_features df windows cols per90 True minutes_col = Inl ValueError"
      unfolding add_player_rolling_features_def by (rule if_P)
    then show False using ok by simp
  qed
  have run: "add_player_rolling_features df windows cols per90 True minutes_col =
        (if rc \<noteq> [] \<and> rows df2 \<noteq> [] \<and> 0 \<in> set windows then Inl ValueError
         else Inr (if nc \<noteq> [] then concat_cols df2 nc else df2))"
    unfolding add_player_rolling_features_def Let_def rc_def df2_def df1_def nc_def
    by (simp only: keys if_False)
  have crc: "c \<in> set rc" using c by (simp add: rc_def)
  have rcne: "rc \<noteq> []" using crc by auto
  have noerr: "\<not> (rc \<noteq> [] \<and> rows df2 \<noteq> [] \<and> 0 \<in> set windows)"
  proof
    assume "rc \<noteq> [] \<and> rows df2 \<noteq> [] \<and> 0 \<in> set windows"
    then have "add_player_rolling_features df windows cols per90 True minutes_col = Inl ValueError"
      unfolding run by (rule if_P)
    then show False using ok by simp
  qed
  have look: "map_of nc (roll_name c w) = Some (transform (rolling True w) ?ids (column df2 c))"
    unfolding nc_def add_trends_lookup by (rule rolled_cols_lookup [OF crc w])
  then have ncne: "nc \<noteq> []" by auto
  have out: "out = concat_cols df2 nc"
    using ok noerr ncne unfolding run by simp
  have len2: "length (rows df2) = length (rows df)"
    by (simp add: df2_def sort_values_def df1_def length_per90_frame)
  have lo: "length (rows out) = length (rows df)"
    unfolding out by (simp add: concat_cols_rows len2)
  have wpos: "0 < w" if "rows df \<noteq> []"
  proof -
    have "rows df2 \<noteq> []" using len2 that by auto
    then have "0 \<notin> set windows" using noerr rcne by blast
    then show ?thesis using w by (cases w) auto
  qed
  have main: "player_id (rows out ! i) = player_id (rows df2 ! i) \<and>
            gw (rows out ! i) = gw (rows df2 ! i) \<and>
            col_val (rows out ! i) (roll_name c w) =
              transform (rolling_mean w 1) ?ids (column df2 c) ! i"
    if i: "i < length (rows df)" for i
  proof -
    have i2: "i < length (rows df2)" using i len2 by simp
    have v: "col_val (rows out ! i) (roll_name c w) =
             transform (rolling True w) ?ids (column df2 c) ! i"
      unfolding out by (rule concat_cols_nth(3) [OF i2 roll_name_not_key look])
    have k: "player_id (rows out ! i) = player_id (rows df2 ! i) \<and> gw (rows out ! i) = gw (rows df2 ! i)"
      unfolding out using concat_cols_nth(1,2) [OF i2, of nc] by simp
    show ?thesis using k v by (simp add: rolling_def [abs_def])
  qed
  show ?thesis using lo wpos main unfolding df2_def df1_def by blast
qed

text \<open>
  A listed column of the input is among the columns rolled, and the per-90 step and the
  sort leave its values and the keys as they are in the input sorted by
  \<open>(player_id, gw)\<close>, unless the column is itself the per-90 column of a listed one.
\<close>

lemma raw_in_roll_columns:
  assumes "c \<in> set cols" "c \<in> set (columns df)"
  shows "c \<in> set (roll_columns df cols per90 minutes_col)"
  using assms by (simp add: roll_columns_def Let_def available_cols_def)

lemma per90_frame_raw_column:
  assumes c: "c \<in> set (columns df)" and noalias: "\<forall>d\<in>set cols. per90_name d \<noteq> c"
  shows "list_all2 (same_on c) (rows (sort_values (per90_frame df cols per90 minutes_col)))
           (sort_key (\<lambda>r. (player_id r, gw r)) (rows df))"
proof -
  have na: "\<forall>d\<in>set (available_cols df cols). per90_name d \<noteq> c"
    using noalias by (simp add: available_cols_def)
  have r1: "list_all2 (same_on c) (rows (per90_frame df cols per90 minutes_col)) (rows df)"
  proof (cases per90)
    case True
    then show ?thesis using add_per90_same_on [OF c na] by (simp add: per90_frame_def)
  next
    case False
    then show ?thesis by (simp add: per90_frame_def list_all2_refl same_on_def)
  qed
  show ?thesis
    unfolding sort_values_def
    using sort_key_rel [where R = "same_on c" and key = "\<lambda>r. (player_id r, gw r)", OF _ r1]
    by (simp add: same_on_def)
qed

text \<open>
  Claim C6 (amended). Let \<^verbatim>\<open>add_player_rolling_features\<close> be called with
  \<^verbatim>\<open>include_current\<close> true (the default, and what the dataset assembler passes) and
  return a frame. The rolling step reads the frame \<open>srt\<close> left by the per-90 step, sorted
  by \<open>(player_id, gw)\<close>. For every rolled column \<open>c\<close> (a listed column of the frame or
  its per-90 variant), every window \<open>w\<close> of the call and every row \<open>i\<close>: the output keeps
  the number of rows and the keys of \<open>srt\<close>, and the feature \<^verbatim>\<open>c_roll<w>\<close> at row \<open>i\<close> is
  the mean of the observed (non-missing) values of \<open>c\<close> over the last \<open>w\<close> rows of the
  same entity up to and including row \<open>i\<close>; it is missing only when none of them is
  observed. So a row with at most \<open>w\<close> rows of its entity so far gets the mean of all the
  values observed so far, and at the one row of an entity's first gameweek the feature
  equals that row's own value. (A window 0 is refused with \<^verbatim>\<open>ValueError\<close>, so \<open>w\<close> is at
  least 1 here.)
\<close>

theorem rolling_features_spec:
  fixes df :: "stat_row frame" and cols :: "string list" and per90 :: bool
    and minutes_col :: string
  defines "srt \<equiv> rows (sort_values (per90_frame df cols per90 minutes_col))"
  assumes ok: "add_player_rolling_features df windows cols per90 True minutes_col = Inr out"
      and c: "c \<in> set (roll_columns df cols per90 minutes_col)" and w: "w \<in> set windows"
      and i: "i < length (rows df)"
  defines "ps \<equiv> filter (\<lambda>j. player_id (srt ! j) = player_id (srt ! i)) [0..<Suc i]"
  shows "length (rows out) = length (rows df) \<and>
         player_id (rows out ! i) = player_id (srt ! i) \<and> gw (rows out ! i) = gw (srt ! i) \<and>
         col_val (rows out ! i) (roll_name c w) =
           mean_obs (map (\<lambda>j. col_val (srt ! j) c) (drop (length ps - w) ps)) \<and>
         (length ps \<le> w \<longrightarrow>
            col_val (rows out ! i) (roll_name c w) = mean_obs (map (\<lambda>j. col_val (srt ! j) c) ps)) \<and>
         ((\<forall>j<length srt. j \<noteq> i \<and> player_id (srt ! j) = player_id (srt ! i)
               \<longrightarrow> gw (srt ! i) < gw (srt ! j)) \<longrightarrow>
            col_val (rows out ! i) (roll_name c w) = col_val (srt ! i) c)"
proof -
  note R = rolling_features_rows [OF ok c w]
  let ?ids = "map player_id srt"
  have len: "length (rows out) = length (rows df)" using R by blast
  have ls: "length srt = length (rows df)"
    by (simp add: srt_def sort_values_def length_per90_frame)
  have il: "i < length ?ids" using i ls by simp
  have wpos: "0 < w" using R i by (cases "rows df") auto
  have row: "player_id (rows out ! i) = player_id (srt ! i) \<and> gw (rows out ! i) = gw (srt ! i) \<and>
         col_val (rows out ! i) (roll_name c w) =
           transform (rolling_mean w 1) ?ids
             (column (sort_values (per90_frame df cols per90 minutes_col)) c) ! i"
    using R [THEN conjunct2, THEN conjunct2, rule_format, OF i]
    unfolding srt_def by blast
  let ?ps' = "filter (\<lambda>j. ?ids ! j = ?ids ! i) [0..<Suc i]"
  have pe: "?ps' = ps"
    unfolding ps_def
  proof (rule filter_cong [OF refl])
    fix j assume "j \<in> set [0..<Suc i]"
    then have "j < length srt" using i ls by auto
    then show "(?ids ! j = ?ids ! i) = (player_id (srt ! j) = player_id (srt ! i))"
      using i ls by simp
  qed
  have "col_val (rows out ! i) (roll_name c w) =
        mean_obs (map (\<lambda>j. column (sort_values (per90_frame df cols per90 minutes_col)) c ! j)
                      (drop (length ?ps' - w) ?ps'))"
    using row transform_rolling_nth [OF il, of w] by simp
  also have "\<dots> = mean_obs (map (\<lambda>j. column (sort_values (per90_frame df cols per90 minutes_col)) c ! j)
                      (drop (length ps - w) ps))"
    by (simp only: pe)
  also have "map (\<lambda>j. column (sort_values (per90_frame df cols per90 minutes_col)) c ! j)
                 (drop (length ps - w) ps) =
             map (\<lambda>j. col_val (srt ! j) c) (drop (length ps - w) ps)"
  proof (rule map_cong [OF refl])
    fix j assume "j \<in> set (drop (length ps - w) ps)"
    then have "j \<in> set ps" by (rule in_set_dropD)
    then have jl: "j < length srt" using i ls by (auto simp: ps_def)
    then show "column (sort_values (per90_frame df cols per90 minutes_col)) c ! j = col_val (srt ! j) c"
      by (simp add: column_def srt_def)
  qed
  finally have f: "col_val (rows out ! i) (roll_name c w) =
           mean_obs (map (\<lambda>j. col_val (srt ! j) c) (drop (length ps - w) ps))" .
  have part: "col_val (rows out ! i) (roll_name c w) = mean_obs (map (\<lambda>j. col_val (srt ! j) c) ps)"
    if "length ps \<le> w"
    using f that by simp
  have first: "col_val (rows out ! i) (roll_name c w) = col_val (srt ! i) c"
    if a: "\<forall>j<length srt. j \<noteq> i \<and> player_id (srt ! j) = player_id (srt ! i)
               \<longrightarrow> gw (srt ! i) < gw (srt ! j)"
  proof -
    have so: "sorted (map (\<lambda>r. (player_id r, gw r)) srt)"
      unfolding srt_def sort_values_def by (simp add: sorted_sort_key del: sort_key_simps)
    have "player_id (srt ! j) \<noteq> player_id (srt ! i)" if "j < i" for j
    proof
      assume e: "player_id (srt ! j) = player_id (srt ! i)"
      have "gw (srt ! j) \<le> gw (srt ! i)"
        using sorted_pairs_same_player [OF so that _ e] i ls by simp
      moreover have "gw (srt ! i) < gw (srt ! j)" using a that e i ls by simp
      ultimately show False by simp
    qed
    then have "ps = [i]" unfolding ps_def by (intro filter_upt_first) simp_all
    then show ?thesis using f wpos by (simp add: mean_obs_single)
  qed
  show ?thesis using len row part first f by blast
qed

theorem rolling_features_spec_witness:
  "\<exists>out. add_player_rolling_features
      \<lparr>columns = [''player_id'', ''gw'', ''minutes'', ''event_points''],
       rows = [\<lparr>gw = 1, player_id = 2,
                num = (\<lambda>c. None)(''minutes'' := Some 90, ''event_points'' := Some 5)\<rparr>,
               \<lparr>gw = 2, player_id = 1,
                num = (\<lambda>c. None)(''minutes'' := Some 45, ''event_points'' := Some 6)\<rparr>,
               \<lparr>gw = 1, player_id = 1,
                num = (\<lambda>c. None)(''minutes'' := Some 90, ''event_points'' := Some 3)\<rparr>]\<rparr>
      [3] [''event_points''] True True ''minutes'' = Inr out \<and>
     length (rows out) = 3 \<and>
     player_id (rows out ! 0) = 1 \<and> gw (rows out ! 0) = 1 \<and>
     col_val (rows out ! 0) (roll_name ''event_points'' 3) = Some 3 \<and>
     player_id (rows out ! 1) = 1 \<and> gw (rows out ! 1) = 2 \<and>
     col_val (rows out ! 1) (roll_name ''event_points'' 3) = Some (9 / 2) \<and>
     col_val (rows out ! 1) (roll_name (per90_name ''event_points'') 3) = Some (15 / 2)"
proof -
  let ?df = "\<lparr>columns = [''player_id'', ''gw'', ''minutes'', ''event_points''],
       rows = [\<lparr>gw = 1, player_id = 2,
                num = (\<lambda>c. None)(''minutes'' := Some 90, ''event_points'' := Some 5)\<rparr>,
               \<lparr>gw = 2, player_id = 1,
                num = (\<lambda>c. None)(''minutes'' := Some 45, ''event_points'' := Some 6)\<rparr>,
               \<lparr>gw = 1, player_id = 1,
                num = (\<lambda>c. None)(''minutes'' := Some 90, ''event_points'' := Some 3)\<rparr>]\<rparr>"
  let ?srt = "rows (sort_values (per90_frame ?df [''event_points''] True ''minutes''))"
  have "case add_player_rolling_features ?df [3] [''event_points''] True True ''minutes'' of
          Inl e \<Rightarrow> False | Inr out \<Rightarrow> True"
    by code_simp
  then obtain out where
    ok: "add_player_rolling_features ?df [3] [''event_points''] True True ''minutes'' = Inr out"
    by (auto split: sum.splits)
  have c: "''event_points'' \<in> set (roll_columns ?df [''event_points''] True ''minutes'')"
    and c90: "per90_name ''event_points'' \<in> set (roll_columns ?df [''event_points''] True ''minutes'')"
    by code_simp+
  have w: "(3::nat) \<in> set [3]" by simp
  have i0: "0 < length (rows ?df)" and i1: "1 < length (rows ?df)" by simp_all
  note s0 = rolling_features_spec [OF ok c w i0]
  note s1 = rolling_features_spec [OF ok c w i1]
  note t1 = rolling_features_spec [OF ok c90 w i1]
  have "length (rows out) = length (rows ?df)" using s0 by (elim conjE)
  then have len: "length (rows out) = 3" by simp
  have fst0: "\<forall>j<length ?srt. j \<noteq> 0 \<and> player_id (?srt ! j) = player_id (?srt ! 0)
               \<longrightarrow> gw (?srt ! 0) < gw (?srt ! j)"
    by code_simp
  have p0: "player_id (?srt ! 0) = 1" and g0: "gw (?srt ! 0) = 1"
    and v0: "col_val (?srt ! 0) ''event_points'' = Some 3"
    and p1: "player_id (?srt ! 1) = 1" and g1: "gw (?srt ! 1) = 2"
    by code_simp+
  have a0: "player_id (rows out ! 0) = player_id (?srt ! 0)" using s0 by (elim conjE)
  have b0: "gw (rows out ! 0) = gw (?srt ! 0)" using s0 by (elim conjE)
  have "(\<forall>j<length ?srt. j \<noteq> 0 \<and> player_id (?srt ! j) = player_id (?srt ! 0)
               \<longrightarrow> gw (?srt ! 0) < gw (?srt ! j)) \<longrightarrow>
        col_val (rows out ! 0) (roll_name ''event_points'' 3) = col_val (?srt ! 0) ''event_points''"
    using s0 by (elim conjE)
  then have "col_val (rows out ! 0) (roll_name ''event_points'' 3) = col_val (?srt ! 0) ''event_points''"
    using fst0 by (rule mp)
  then have k0: "player_id (rows out ! 0) = 1 \<and> gw (rows out ! 0) = 1 \<and>
            col_val (rows out ! 0) (roll_name ''event_points'' 3) = Some 3"
    using a0 b0 by (simp only: p0 g0 v0 simp_thms)
  have "col_val (rows out ! 1) (roll_name ''event_points'' 3) =
      mean_obs (map (\<lambda>j. col_val (?srt ! j) ''event_points'')
        (drop (length (filter (\<lambda>j. player_id (?srt ! j) = player_id (?srt ! 1)) [0..<Suc 1]) - 3)
              (filter (\<lambda>j. player_id (?srt ! j) = player_id (?srt ! 1)) [0..<Suc 1])))"
    using s1 by (elim conjE)
  also have "\<dots> = Some (9 / 2)" by code_simp
  finally have k1: "col_val (rows out ! 1) (roll_name ''event_points'' 3) = Some (9 / 2)" .
  have "col_val (rows out ! 1) (roll_name (per90_name ''event_points'') 3) =
      mean_obs (map (\<lambda>j. col_val (?srt ! j) (per90_name ''event_points''))
        (drop (length (filter (\<lambda>j. player_id (?srt ! j) = player_id (?srt ! 1)) [0..<Suc 1]) - 3)
              (filter (\<lambda>j. player_id (?srt ! j) = player_id (?srt ! 1)) [0..<Suc 1])))"
    using t1 by (elim conjE)
  also have "\<dots> = Some (15 / 2)" by code_simp
  finally have k2: "col_val (rows out ! 1) (roll_name (per90_name ''event_points'') 3) = Some (15 / 2)" .
  have a1: "player_id (rows out ! 1) = player_id (?srt ! 1)" using s1 by (elim conjE)
  have b1: "gw (rows out ! 1) = gw (?srt ! 1)" using s1 by (elim conjE)
  have k1': "player_id (rows out ! 1) = 1 \<and> gw (rows out ! 1) = 2"
    using a1 b1 by (simp only: p1 g1 simp_thms)
  show ?thesis using ok len k0 k1 k1' k2 by blast
qed

text \<open>
  With \<^verbatim>\<open>include_current\<close> false the series is shifted by one row before the rolling
  mean, so the feature at an entity's first gameweek is missing although the row has
  an observed value: the claim as stated, for every call, does not hold.
\<close>

theorem rolling_features_exclude_current_counterexample:
  "map_sum id (\<lambda>out. map (\<lambda>r. (player_id r, gw r, col_val r ''event_points'',
                                  col_val r (roll_name ''event_points'' 3))) (rows out))
     (add_player_rolling_features
        \<lparr>columns = [''player_id'', ''gw'', ''minutes'', ''event_points''],
       rows = [\<lparr>gw = 1, player_id = 2,
                num = (\<lambda>c. None)(''minutes'' := Some 90, ''event_points'' := Some 5)\<rparr>,
               \<lparr>gw = 2, player_id = 1,
                num = (\<lambda>c. None)(''minutes'' := Some 45, ''event_points'' := Some 6)\<rparr>,
               \<lparr>gw = 1, player_id = 1,
                num = (\<lambda>c. None)(''minutes'' := Some 90, ''event_points'' := Some 3)\<rparr>]\<rparr>
        [3] [''event_points''] True False ''minutes'')
   = Inr [(1, 1, Some 3, None), (1, 2, Some 6, Some 3), (2, 1, Some 5, None)]"
  by code_simp

end
